theory Spec2Isabelle
  imports Main
begin

section \<open>Strings\<close>

text \<open>
  A Python \<^verbatim>\<open>str\<close> is represented by the Isabelle string of its UTF-8 bytes, so every
  ASCII character is one \<^typ>\<open>char\<close> and every other character is a run of chars above
  \<open>0x7F\<close>.  The string operations of \<^verbatim>\<open>sync_canva_design.py\<close> and of the library functions
  it calls search for, split at or compare with ASCII characters only, so they act on this
  representation as they act on the \<^verbatim>\<open>str\<close>; case mapping is the exception, see below.
\<close>

definition is_ascii :: "char \<Rightarrow> bool" where
  "is_ascii c = ((of_char c :: nat) < 128)"

definition ascii_lowercase :: string where
  "ascii_lowercase = ''abcdefghijklmnopqrstuvwxyz''"

definition ascii_uppercase :: string where
  "ascii_uppercase = ''ABCDEFGHIJKLMNOPQRSTUVWXYZ''"

definition digits :: string where
  "digits = ''0123456789''"

text \<open>\<^verbatim>\<open>str.lower\<close> and \<^verbatim>\<open>str.upper\<close> on ASCII text: only the letters A-Z and a-z are mapped.
  They are applied to the scheme of a URL, which is ASCII, and to the export format, which
  the command line restricts to \<open>pdf\<close>, \<open>png\<close> and \<open>jpg\<close>.\<close>

definition py_lower :: "string \<Rightarrow> string" where
  "py_lower s =
     map (\<lambda>c. case map_of (zip ascii_uppercase ascii_lowercase) c of Some l \<Rightarrow> l | None \<Rightarrow> c) s"

definition py_upper :: "string \<Rightarrow> string" where
  "py_upper s =
     map (\<lambda>c. case map_of (zip ascii_lowercase ascii_uppercase) c of Some u \<Rightarrow> u | None \<Rightarrow> c) s"

text \<open>\<^verbatim>\<open>s.split(sep)\<close> for a one-character separator: never the empty list.\<close>

fun py_split :: "char \<Rightarrow> string \<Rightarrow> string list" where
  "py_split sep [] = [[]]"
| "py_split sep (c # cs) =
     (if c = sep then [] # py_split sep cs
      else (case py_split sep cs of
              p # ps \<Rightarrow> (c # p) # ps
            | [] \<Rightarrow> [[c]]))"

text \<open>\<^verbatim>\<open>s.find(c)\<close>: the first position of \<open>c\<close>, or \<open>-1\<close>.\<close>

definition py_find :: "char \<Rightarrow> string \<Rightarrow> int" where
  "py_find c s = (if c \<in> set s then int (length (takeWhile (\<lambda>x. x \<noteq> c) s)) else - 1)"

text \<open>\<^verbatim>\<open>s.rfind(c)\<close>: the last position of \<open>c\<close>, or \<open>-1\<close>.\<close>

definition py_rfind :: "char \<Rightarrow> string \<Rightarrow> int" where
  "py_rfind c s =
     (if c \<in> set s then int (length s) - 1 - int (length (takeWhile (\<lambda>x. x \<noteq> c) (rev s)))
      else - 1)"

text \<open>\<^verbatim>\<open>xs.index(x)\<close>: the first position of \<open>x\<close>; \<open>None\<close> where Python raises, which is
  exactly where \<^verbatim>\<open>x in xs\<close> is false.\<close>

fun py_index :: "'a \<Rightarrow> 'a list \<Rightarrow> nat option" where
  "py_index x [] = None"
| "py_index x (y # ys) = (if x = y then Some 0 else map_option Suc (py_index x ys))"

text \<open>\<^verbatim>\<open>s.partition(sep)\<close>: the text before the first \<open>sep\<close> and the text after it.\<close>

definition partition_before :: "char \<Rightarrow> string \<Rightarrow> string" where
  "partition_before sep s = takeWhile (\<lambda>x. x \<noteq> sep) s"

definition partition_after :: "char \<Rightarrow> string \<Rightarrow> string" where
  "partition_after sep s = drop 1 (dropWhile (\<lambda>x. x \<noteq> sep) s)"

section \<open>The parts of \<^verbatim>\<open>urllib.parse\<close> the extractor calls (CPython 3.11)\<close>

text \<open>
  Three steps of the library depend on tables that are outside this development: the
  validation of a bracketed host (\<^verbatim>\<open>_check_bracketed_host\<close>, through \<^verbatim>\<open>ipaddress\<close>), the
  NFKC check of a non-ASCII network location (\<^verbatim>\<open>_checknetloc\<close>), and the decoding of
  percent-decoded bytes (\<^verbatim>\<open>bytes.decode('utf-8', 'replace')\<close>).  They are parameters of the
  model; the first two give the message of the \<^verbatim>\<open>ValueError\<close> they raise, if any.
\<close>

record pylib =
  check_bracketed_host :: "string \<Rightarrow> string option"
  checknetloc_nfkc :: "string \<Rightarrow> string option"
  decode_utf8_replace :: "string \<Rightarrow> string"

text \<open>The library instance used to evaluate concrete URLs: it accepts every host and leaves
  decoded bytes as they are, which is what CPython does on ASCII input without brackets.\<close>

definition ascii_lib :: pylib where
  "ascii_lib = \<lparr> check_bracketed_host = (\<lambda>h. None),
                 checknetloc_nfkc = (\<lambda>n. None),
                 decode_utf8_replace = (\<lambda>bs. bs) \<rparr>"

text \<open>The exceptions that occur: the two the library calls of the extractor can raise, with
  their message, and the \<^verbatim>\<open>OSError\<close> subclasses of the file-system calls.\<close>

datatype py_exception =
    ValueError string
  | IndexError string
  | FileNotFoundError
  | FileExistsError
  | NotADirectoryError
  | IsADirectoryError

primrec exc_str :: "py_exception \<Rightarrow> string" where
  "exc_str (ValueError msg) = msg"
| "exc_str (IndexError msg) = msg"
| "exc_str FileNotFoundError = ''[Errno 2] No such file or directory''"
| "exc_str FileExistsError = ''[Errno 17] File exists''"
| "exc_str NotADirectoryError = ''[Errno 20] Not a directory''"
| "exc_str IsADirectoryError = ''[Errno 21] Is a directory''"

definition uses_params :: "string list" where
  "uses_params = ['''', ''ftp'', ''hdl'', ''prospero'', ''http'', ''imap'',
                  ''https'', ''shttp'', ''rtsp'', ''rtsps'', ''rtspu'', ''sip'',
                  ''sips'', ''mms'', ''sftp'', ''tel'']"

definition scheme_chars :: string where
  "scheme_chars = ascii_lowercase @ ascii_uppercase @ digits @ ''+-.''"

text \<open>\<^verbatim>\<open>_WHATWG_C0_CONTROL_OR_SPACE\<close>: the characters U+0000 to U+0020.\<close>

definition WHATWG_C0_CONTROL_OR_SPACE :: "char \<Rightarrow> bool" where
  "WHATWG_C0_CONTROL_OR_SPACE c = ((of_char c :: nat) \<le> 32)"

definition UNSAFE_URL_BYTES_TO_REMOVE :: "char list" where
  "UNSAFE_URL_BYTES_TO_REMOVE = [CHR 0x09, CHR 0x0D, CHR 0x0A]"

text \<open>\<^verbatim>\<open>_splitnetloc(url, 2)\<close>: the network location runs from position 2 to the first of
  \<open>/\<close>, \<open>?\<close>, \<open>#\<close>.\<close>

definition splitnetloc :: "string \<Rightarrow> string \<times> string" where
  "splitnetloc url =
     (let delim = (\<lambda>c. c \<in> set ''/?#'')
      in (takeWhile (\<lambda>c. \<not> delim c) (drop 2 url), dropWhile (\<lambda>c. \<not> delim c) (drop 2 url)))"

text \<open>The tail of \<^verbatim>\<open>urlsplit\<close>: the fragment is cut off at the first \<open>#\<close>, then the query at
  the first \<open>?\<close>, then \<^verbatim>\<open>_checknetloc\<close> runs.\<close>

definition urlsplit_tail ::
  "pylib \<Rightarrow> string \<Rightarrow> string \<Rightarrow> string \<Rightarrow> py_exception + (string \<times> string \<times> string \<times> string \<times> string)"
where
  "urlsplit_tail L scheme netloc url =
     (let fragment = (if CHR ''#'' \<in> set url then partition_after CHR ''#'' url else []);
          url1 = (if CHR ''#'' \<in> set url then partition_before CHR ''#'' url else url);
          query = (if CHR ''?'' \<in> set url1 then partition_after CHR ''?'' url1 else []);
          url2 = (if CHR ''?'' \<in> set url1 then partition_before CHR ''?'' url1 else url1)
      in if netloc = [] \<or> list_all is_ascii netloc then Inr (scheme, netloc, url2, query, fragment)
         else (case checknetloc_nfkc L netloc of
                 Some msg \<Rightarrow> Inl (ValueError msg)
               | None \<Rightarrow> Inr (scheme, netloc, url2, query, fragment)))"

definition urlsplit ::
  "pylib \<Rightarrow> string \<Rightarrow> py_exception + (string \<times> string \<times> string \<times> string \<times> string)"
where
  "urlsplit L url0 =
     (let url1 = dropWhile WHATWG_C0_CONTROL_OR_SPACE url0;
          url2 = filter (\<lambda>c. c \<notin> set UNSAFE_URL_BYTES_TO_REMOVE) url1;
          i = py_find CHR '':'' url2;
          has_scheme = (i > 0 \<and> hd url2 \<in> set (ascii_lowercase @ ascii_uppercase)
                        \<and> list_all (\<lambda>c. c \<in> set scheme_chars) (take (nat i) url2));
          scheme = (if has_scheme then py_lower (take (nat i) url2) else []);
          url3 = (if has_scheme then drop (nat i + 1) url2 else url2)
      in if take 2 url3 = ''//'' then
           (let netloc = fst (splitnetloc url3);
                url4 = snd (splitnetloc url3)
            in if (CHR ''['' \<in> set netloc \<and> CHR '']'' \<notin> set netloc)
                  \<or> (CHR '']'' \<in> set netloc \<and> CHR ''['' \<notin> set netloc)
               then Inl (ValueError ''Invalid IPv6 URL'')
               else if CHR ''['' \<in> set netloc \<and> CHR '']'' \<in> set netloc then
                 (case check_bracketed_host L
                         (partition_before CHR '']'' (partition_after CHR ''['' netloc)) of
                    Some msg \<Rightarrow> Inl (ValueError msg)
                  | None \<Rightarrow> urlsplit_tail L scheme netloc url4)
               else urlsplit_tail L scheme netloc url4)
         else urlsplit_tail L scheme [] url3)"

text \<open>\<^verbatim>\<open>_splitparams(url)[0]\<close>: the path without the parameters of its last segment.\<close>

definition splitparams :: "string \<Rightarrow> string" where
  "splitparams url =
     (if CHR ''/'' \<in> set url then
        (let k = nat (py_rfind CHR ''/'' url)
         in if CHR '';'' \<in> set (drop k url)
            then take k url @ partition_before CHR '';'' (drop k url)
            else url)
      else partition_before CHR '';'' url)"

record parse_result =
  scheme :: string
  netloc :: string
  path :: string
  query :: string
  fragment :: string

definition urlparse :: "pylib \<Rightarrow> string \<Rightarrow> py_exception + parse_result" where
  "urlparse L url =
     (case urlsplit L url of
        Inl e \<Rightarrow> Inl e
      | Inr (sch, loc, url1, qs, frag) \<Rightarrow>
          Inr \<lparr> scheme = sch, netloc = loc,
                path = (if sch \<in> set uses_params \<and> CHR '';'' \<in> set url1
                        then splitparams url1 else url1),
                query = qs, fragment = frag \<rparr>)"

subsection \<open>Percent-decoding and the query string\<close>

definition hexdig :: string where
  "hexdig = ''0123456789ABCDEFabcdef''"

definition hexval :: "char \<Rightarrow> nat" where
  "hexval c =
     (case map_of (zip ''0123456789abcdef'' [0 ..< 16]) c of
        Some v \<Rightarrow> v
      | None \<Rightarrow> (case map_of (zip ''ABCDEF'' [10 ..< 16]) c of Some v \<Rightarrow> v | None \<Rightarrow> 0))"

text \<open>One item of \<^verbatim>\<open>string.split(b'%')[1:]\<close> in \<^verbatim>\<open>unquote_to_bytes\<close>: two hexadecimal
  digits become one byte, anything else keeps its percent sign.\<close>

definition unquote_item :: "string \<Rightarrow> string" where
  "unquote_item item =
     (case item of
        a # b # rest \<Rightarrow>
          (if a \<in> set hexdig \<and> b \<in> set hexdig
           then char_of (16 * hexval a + hexval b) # rest
           else CHR ''%'' # item)
      | _ \<Rightarrow> CHR ''%'' # item)"

definition unquote_to_bytes :: "string \<Rightarrow> string" where
  "unquote_to_bytes s =
     (case py_split CHR ''%'' s of
        [] \<Rightarrow> s
      | b # bits \<Rightarrow> b @ concat (map unquote_item bits))"

text \<open>The maximal runs of ASCII and of non-ASCII characters of a string, in order: what
  \<^verbatim>\<open>_asciire.split\<close> separates.\<close>

fun ascii_runs :: "string \<Rightarrow> (bool \<times> string) list" where
  "ascii_runs [] = []"
| "ascii_runs (c # cs) =
     (case ascii_runs cs of
        (b, r) # rest \<Rightarrow>
          (if b = is_ascii c then (b, c # r) # rest else (is_ascii c, [c]) # (b, r) # rest)
      | [] \<Rightarrow> [(is_ascii c, [c])])"

definition unquote :: "pylib \<Rightarrow> string \<Rightarrow> string" where
  "unquote L s =
     (if CHR ''%'' \<notin> set s then s
      else concat (map (\<lambda>(b, r). if b then decode_utf8_replace L (unquote_to_bytes r) else r)
                       (ascii_runs s)))"

definition unquote_plus :: "pylib \<Rightarrow> string \<Rightarrow> string" where
  "unquote_plus L s = unquote L (map (\<lambda>c. if c = CHR ''+'' then CHR '' '' else c) s)"

text \<open>\<^verbatim>\<open>parse_qsl\<close> with its defaults: fields are separated by \<open>&\<close>, empty fields and fields
  with a blank value are dropped.\<close>

definition parse_qsl_field :: "pylib \<Rightarrow> string \<Rightarrow> (string \<times> string) list" where
  "parse_qsl_field L name_value =
     (if name_value \<noteq> [] then
        (let name = partition_before CHR ''='' name_value;
             val = partition_after CHR ''='' name_value
         in if val \<noteq> [] then [(unquote_plus L name, unquote_plus L val)] else [])
      else [])"

definition parse_qsl :: "pylib \<Rightarrow> string \<Rightarrow> (string \<times> string) list" where
  "parse_qsl L qs =
     (if qs = [] then [] else concat (map (parse_qsl_field L) (py_split CHR ''&'' qs)))"

definition parse_qs_add ::
  "(string \<rightharpoonup> string list) \<Rightarrow> string \<times> string \<Rightarrow> (string \<rightharpoonup> string list)" where
  "parse_qs_add parsed_result nv =
     (case parsed_result (fst nv) of
        Some vs \<Rightarrow> parsed_result(fst nv \<mapsto> vs @ [snd nv])
      | None \<Rightarrow> parsed_result(fst nv \<mapsto> [snd nv]))"

definition parse_qs :: "pylib \<Rightarrow> string \<Rightarrow> (string \<rightharpoonup> string list)" where
  "parse_qs L qs = foldl parse_qs_add Map.empty (parse_qsl L qs)"

section \<open>The identifier extractor\<close>

datatype log_level = INFO | ERROR

type_synonym log_record = "log_level \<times> string"

text \<open>The body of the \<^verbatim>\<open>try\<close> block of \<^verbatim>\<open>extract_design_id\<close>: the value returned and the
  records logged, or the exception raised.\<close>

definition extract_design_id_try ::
  "pylib \<Rightarrow> string \<Rightarrow> py_exception + (string option \<times> log_record list)" where
  "extract_design_id_try L canva_url =
     (case urlparse L canva_url of
        Inl e \<Rightarrow> Inl e
      | Inr parsed_url \<Rightarrow>
          (let path_parts = py_split CHR ''/'' (path parsed_url);
               in_path =
                 (case py_index ''design'' path_parts of
                    None \<Rightarrow> None
                  | Some i \<Rightarrow>
                      (let design_index = i + 1
                       in if design_index < length path_parts
                          then Some (path_parts ! design_index) else None))
           in case in_path of
                Some design_id \<Rightarrow>
                  Inr (Some design_id, [(INFO, ''Extracted design ID: '' @ design_id)])
              | None \<Rightarrow>
                  (let query_params = parse_qs L (query parsed_url)
                   in case query_params ''utm_content'' of
                        Some [] \<Rightarrow> Inl (IndexError ''list index out of range'')
                      | Some (design_id # _) \<Rightarrow>
                          Inr (Some design_id,
                               [(INFO, ''Extracted design ID from query: '' @ design_id)])
                      | None \<Rightarrow>
                          Inr (None, [(ERROR, ''Could not extract design ID from URL.'')]))))"

text \<open>\<^verbatim>\<open>extract_design_id\<close>: every exception of the body is caught, logged and turned into
  \<^verbatim>\<open>None\<close>.  The result type keeps the exception branch, so that "does not raise" is a
  statement about the function and not about its type.\<close>

definition extract_design_id ::
  "pylib \<Rightarrow> string \<Rightarrow> py_exception + (string option \<times> log_record list)" where
  "extract_design_id L canva_url =
     (case extract_design_id_try L canva_url of
        Inl e \<Rightarrow> Inr (None, [(ERROR, ''Error extracting design ID: '' @ exc_str e)])
      | Inr r \<Rightarrow> Inr r)"

section \<open>The file system\<close>

text \<open>
  A file system is the list of its directories, the contents of its regular files and the
  current directory.  A node is named by its components from the root, so the root is \<open>[]\<close>;
  it is always a directory.  File contents are byte strings.  Permissions, symbolic links,
  quotas and limits on names are not modelled: a call fails only because of what exists.
\<close>

record filesystem =
  dirs :: "string list list"
  files :: "(string list \<times> string) list"
  cwd :: "string list"

definition is_dir :: "filesystem \<Rightarrow> string list \<Rightarrow> bool" where
  "is_dir fs n = (n = [] \<or> n \<in> set (dirs fs))"

definition start_dir :: "filesystem \<Rightarrow> string \<Rightarrow> string list" where
  "start_dir fs p = (if take 1 p = ''/'' then [] else cwd fs)"

text \<open>Path resolution: every component walked through must be a directory; empty components
  and \<open>.\<close> stay, \<open>..\<close> goes up.\<close>

fun walk :: "filesystem \<Rightarrow> string list \<Rightarrow> string list \<Rightarrow> py_exception + string list" where
  "walk fs cur [] = Inr cur"
| "walk fs cur (c # cs) =
     (if c = [] \<or> c = ''.'' then walk fs cur cs
      else if c = ''..'' then walk fs (butlast cur) cs
      else if is_dir fs (cur @ [c]) then walk fs (cur @ [c]) cs
      else if map_of (files fs) (cur @ [c]) \<noteq> None then Inl NotADirectoryError
      else Inl FileNotFoundError)"

text \<open>\<^verbatim>\<open>os.path.isdir(p)\<close>.\<close>

definition path_isdir :: "filesystem \<Rightarrow> string \<Rightarrow> bool" where
  "path_isdir fs p =
     (p \<noteq> [] \<and> (case walk fs (start_dir fs p) (py_split CHR ''/'' p) of
                    Inr n \<Rightarrow> True
                  | Inl e \<Rightarrow> False))"

text \<open>\<^verbatim>\<open>os.path.exists(p)\<close>: the path resolves to a directory or a regular file.\<close>

definition path_exists :: "filesystem \<Rightarrow> string \<Rightarrow> bool" where
  "path_exists fs p =
     (p \<noteq> [] \<and>
      (case walk fs (start_dir fs p) (butlast (py_split CHR ''/'' p)) of
         Inl e \<Rightarrow> False
       | Inr d \<Rightarrow>
           (let c = last (py_split CHR ''/'' p)
            in c = [] \<or> c = ''.'' \<or> c = ''..'' \<or> is_dir fs (d @ [c])
               \<or> map_of (files fs) (d @ [c]) \<noteq> None)))"

text \<open>\<^verbatim>\<open>s.rstrip(c)\<close>.\<close>

definition py_rstrip :: "char \<Rightarrow> string \<Rightarrow> string" where
  "py_rstrip c s = rev (dropWhile (\<lambda>x. x = c) (rev s))"

text \<open>\<^verbatim>\<open>os.path.split(p)\<close> of \<^verbatim>\<open>posixpath\<close>: the head is everything up to the last \<open>/\<close>, without
  its trailing slashes unless it consists of slashes only; the tail is the rest.\<close>

definition path_split :: "string \<Rightarrow> string \<times> string" where
  "path_split p =
     (let i = nat (py_rfind CHR ''/'' p + 1);
          head = take i p;
          tail = drop i p
      in (if head \<noteq> [] \<and> \<not> list_all (\<lambda>c. c = CHR ''/'') head
          then py_rstrip CHR ''/'' head else head,
          tail))"

text \<open>\<^verbatim>\<open>os.mkdir(p)\<close>: trailing slashes are ignored, the directory part must resolve, and the
  last component must name nothing that exists.\<close>

definition mkdir :: "filesystem \<Rightarrow> string \<Rightarrow> py_exception + filesystem" where
  "mkdir fs p =
     (if p = [] then Inl FileNotFoundError
      else if list_all (\<lambda>c. c = CHR ''/'') p then Inl FileExistsError
      else (case walk fs (start_dir fs p)
                   (butlast (py_split CHR ''/'' (py_rstrip CHR ''/'' p))) of
              Inl e \<Rightarrow> Inl e
            | Inr d \<Rightarrow>
                (let c = last (py_split CHR ''/'' (py_rstrip CHR ''/'' p))
                 in if c = [] \<or> c = ''.'' \<or> c = ''..'' \<or> is_dir fs (d @ [c])
                       \<or> map_of (files fs) (d @ [c]) \<noteq> None
                    then Inl FileExistsError
                    else Inr (fs\<lparr>dirs := (d @ [c]) # dirs fs\<rparr>))))"

text \<open>The last statement of \<^verbatim>\<open>os.makedirs(name, exist_ok=True)\<close>: \<^verbatim>\<open>mkdir(name)\<close>, whose
  \<^verbatim>\<open>OSError\<close> is raised again unless \<open>name\<close> is a directory.\<close>

definition makedirs_mkdir :: "filesystem \<Rightarrow> string \<Rightarrow> py_exception option \<times> filesystem" where
  "makedirs_mkdir fs name =
     (case mkdir fs name of
        Inr fs' \<Rightarrow> (None, fs')
      | Inl e \<Rightarrow> (if path_isdir fs name then (None, fs) else (Some e, fs)))"

text \<open>The first statements of \<^verbatim>\<open>os.makedirs\<close>: \<^verbatim>\<open>head, tail = path.split(name)\<close>, split once
  more where the tail is empty.\<close>

definition makedirs_split :: "string \<Rightarrow> string \<times> string" where
  "makedirs_split name =
     (if snd (path_split name) = [] then path_split (fst (path_split name))
      else path_split name)"

text \<open>\<^verbatim>\<open>os.makedirs(name, exist_ok=True)\<close> as CPython 3.11 defines it in \<^verbatim>\<open>os.py\<close>: where the
  head does not exist it is made first, a \<^verbatim>\<open>FileExistsError\<close> of that recursive call is
  ignored, and the call returns there when the tail is \<open>.\<close>; then \<^verbatim>\<open>mkdir(name)\<close>.  The
  file system is returned also when the call raises, since directories may have been
  created before.\<close>

function makedirs :: "filesystem \<Rightarrow> string \<Rightarrow> py_exception option \<times> filesystem" where
  "makedirs fs name =
     (if fst (makedirs_split name) \<noteq> [] \<and> snd (makedirs_split name) \<noteq> []
         \<and> \<not> path_exists fs (fst (makedirs_split name))
      then (case makedirs fs (fst (makedirs_split name)) of
              (Some e, fs1) \<Rightarrow>
                (if e \<noteq> FileExistsError then (Some e, fs1)
                 else if snd (makedirs_split name) = ''.'' then (None, fs1)
                 else makedirs_mkdir fs1 name)
            | (None, fs1) \<Rightarrow>
                (if snd (makedirs_split name) = ''.'' then (None, fs1)
                 else makedirs_mkdir fs1 name))
      else makedirs_mkdir fs name)"
  by pat_completeness auto
termination
proof (relation "measure (\<lambda>(fs, name). length name)")
  show "wf (measure (\<lambda>(fs, name). length name))" by simp
next
  fix fs :: filesystem and name :: string
  assume a: "fst (makedirs_split name) \<noteq> [] \<and> snd (makedirs_split name) \<noteq> []
             \<and> \<not> path_exists fs (fst (makedirs_split name))"
  have le: "length (fst (path_split p)) \<le> length p" for p
  proof -
    have "length (py_rstrip CHR ''/'' s) \<le> length s" for s
      by (simp add: py_rstrip_def length_dropWhile_le[of _ "rev s", simplified])
    from this[of "take (nat (py_rfind CHR ''/'' p + 1)) p"]
    have "length (py_rstrip CHR ''/'' (take (nat (py_rfind CHR ''/'' p + 1)) p)) \<le> length p"
      by simp
    then show ?thesis by (simp add: path_split_def Let_def)
  qed
  have lt: "length (fst (path_split p)) < length p" if "snd (path_split p) \<noteq> []" for p
  proof -
    let ?i = "nat (py_rfind CHR ''/'' p + 1)"
    from that have "drop ?i p \<noteq> []" by (simp add: path_split_def Let_def)
    then have i: "length (take ?i p) < length p" by simp
    have "length (py_rstrip CHR ''/'' s) \<le> length s" for s
      by (simp add: py_rstrip_def length_dropWhile_le[of _ "rev s", simplified])
    from this[of "take ?i p"] i show ?thesis
      by (auto simp: path_split_def Let_def)
  qed
  have "length (fst (makedirs_split name)) < length name"
  proof (cases "snd (path_split name) = []")
    case True
    then have "snd (path_split (fst (path_split name))) \<noteq> []"
      using a by (simp add: makedirs_split_def)
    from lt[OF this] le[of name] True show ?thesis by (simp add: makedirs_split_def)
  next
    case False
    from lt[OF this] False show ?thesis by (simp add: makedirs_split_def)
  qed
  then show "((fs, fst (makedirs_split name)), (fs, name)) \<in> measure (\<lambda>(fs, name). length name)"
    by simp
qed

declare makedirs.simps [simp del]

text \<open>\<^verbatim>\<open>os.path.join(a, b)\<close> of \<^verbatim>\<open>posixpath\<close>.\<close>

definition path_join :: "string \<Rightarrow> string \<Rightarrow> string" where
  "path_join a b =
     (if take 1 b = ''/'' then b
      else if a = [] \<or> last a = CHR ''/'' then a @ b
      else a @ ''/'' @ b)"

text \<open>\<^verbatim>\<open>with open(p, 'wb') as f: f.write(data)\<close>: the directory part of \<open>p\<close> must resolve,
  the last component must not name a directory; the file is created or truncated and then
  holds \<open>data\<close>.\<close>

definition open_wb_write :: "filesystem \<Rightarrow> string \<Rightarrow> string \<Rightarrow> py_exception + filesystem" where
  "open_wb_write fs p data =
     (if p = [] then Inl FileNotFoundError
      else (case walk fs (start_dir fs p) (butlast (py_split CHR ''/'' p)) of
              Inl e \<Rightarrow> Inl e
            | Inr d \<Rightarrow>
                (let c = last (py_split CHR ''/'' p)
                 in if c = [] \<or> c = ''.'' \<or> c = ''..'' \<or> is_dir fs (d @ [c])
                    then Inl IsADirectoryError
                    else Inr (fs\<lparr>files := (d @ [c], data)
                                           # filter (\<lambda>kv. fst kv \<noteq> d @ [c]) (files fs)\<rparr>))))"

text \<open>The contents of the regular file a path names, if it names one.\<close>

definition read_file :: "filesystem \<Rightarrow> string \<Rightarrow> string option" where
  "read_file fs p =
     (if p = [] then None
      else (case walk fs (start_dir fs p) (butlast (py_split CHR ''/'' p)) of
              Inl e \<Rightarrow> None
            | Inr d \<Rightarrow>
                (let c = last (py_split CHR ''/'' p)
                 in if c = [] \<or> c = ''.'' \<or> c = ''..'' then None
                    else map_of (files fs) (d @ [c]))))"

section \<open>The HTTP exchange\<close>

record http_request =
  http_method :: string
  request_url :: string
  request_headers :: "(string \<times> string) list"
  request_json :: "(string \<times> string) list"

record response =
  status_code :: int
  reason :: string
  response_url :: string
  content :: string

text \<open>A \<^verbatim>\<open>requests.exceptions.RequestException\<close>: its text and its \<^verbatim>\<open>response\<close> attribute.\<close>

datatype request_exception = RequestException string "response option"

primrec exception_text :: "request_exception \<Rightarrow> string" where
  "exception_text (RequestException msg r) = msg"

primrec exception_response :: "request_exception \<Rightarrow> response option" where
  "exception_response (RequestException msg r) = r"

text \<open>The remote service and the transport are the environment: a function from the request
  passed to \<^verbatim>\<open>requests.post\<close> to the response returned or the exception raised.\<close>

type_synonym http_service = "http_request \<Rightarrow> request_exception + response"

text \<open>Decimal text of an integer, as an f-string renders it.\<close>

function str_nat :: "nat \<Rightarrow> string" where
  "str_nat n = (if n < 10 then [digits ! n] else str_nat (n div 10) @ [digits ! (n mod 10)])"
  by pat_completeness auto
termination
  by (relation "measure (\<lambda>n. n)") auto

definition str_int :: "int \<Rightarrow> string" where
  "str_int i = (if i < 0 then CHR ''-'' # str_nat (nat (- i)) else str_nat (nat i))"

text \<open>\<^verbatim>\<open>Response.raise_for_status()\<close>: an \<^verbatim>\<open>HTTPError\<close> for the statuses 400 to 599, nothing
  for any other status.\<close>

definition raise_for_status :: "response \<Rightarrow> request_exception + unit" where
  "raise_for_status r =
     (if 400 \<le> status_code r \<and> status_code r < 500 then
        Inl (RequestException
               (str_int (status_code r) @ '' Client Error: '' @ reason r
                  @ '' for url: '' @ response_url r) (Some r))
      else if 500 \<le> status_code r \<and> status_code r < 600 then
        Inl (RequestException
               (str_int (status_code r) @ '' Server Error: '' @ reason r
                  @ '' for url: '' @ response_url r) (Some r))
      else Inr ())"

section \<open>The design fetcher\<close>

text \<open>What a run can change: the file system, the log, and the calls of \<^verbatim>\<open>requests.post\<close>
  made so far.\<close>

record world =
  disk :: filesystem
  logged :: "log_record list"
  posted :: "http_request list"

definition api_url :: "string \<Rightarrow> string" where
  "api_url design_id = ''https://api.canva.com/v1/designs/'' @ design_id @ ''/export''"

definition headers :: "string \<Rightarrow> (string \<times> string) list" where
  "headers api_key =
     [(''Authorization'', ''Bearer '' @ api_key), (''Content-Type'', ''application/json'')]"

definition payload :: "string \<Rightarrow> (string \<times> string) list" where
  "payload format = [(''format'', py_upper format), (''pages'', ''all'')]"

text \<open>The call \<^verbatim>\<open>requests.post(api_url, json=payload, headers=headers)\<close>.\<close>

definition post_call :: "string \<Rightarrow> string \<Rightarrow> string \<Rightarrow> http_request" where
  "post_call design_id api_key format =
     \<lparr> http_method = ''POST'', request_url = api_url design_id,
       request_headers = headers api_key, request_json = payload format \<rparr>"

definition output_path :: "string \<Rightarrow> string \<Rightarrow> string \<Rightarrow> string" where
  "output_path design_id output_dir format =
     path_join output_dir (design_id @ ''.'' @ py_lower format)"

text \<open>The \<^verbatim>\<open>try\<close> block of \<^verbatim>\<open>download_canva_design\<close> up to \<^verbatim>\<open>raise_for_status\<close>: the response
  that passed the status check, or the \<^verbatim>\<open>RequestException\<close>.\<close>

definition request_design :: "http_service \<Rightarrow> http_request \<Rightarrow> request_exception + response" where
  "request_design service req =
     (case service req of
        Inl e \<Rightarrow> Inl e
      | Inr r \<Rightarrow> (case raise_for_status r of Inl e \<Rightarrow> Inl e | Inr u \<Rightarrow> Inr r))"

text \<open>\<^verbatim>\<open>download_canva_design\<close>: the path returned, \<^verbatim>\<open>None\<close>, or the \<^verbatim>\<open>OSError\<close> that
  escapes (only \<^verbatim>\<open>RequestException\<close> is caught), and the world after the call.\<close>

definition download_canva_design ::
  "http_service \<Rightarrow> string \<Rightarrow> string \<Rightarrow> string \<Rightarrow> string \<Rightarrow> world
     \<Rightarrow> (py_exception + string option) \<times> world" where
  "download_canva_design service design_id api_key output_dir format w =
     (case makedirs (disk w) output_dir of
        (Some e, fs1) \<Rightarrow> (Inl e, w\<lparr>disk := fs1\<rparr>)
      | (None, fs1) \<Rightarrow>
          (let w1 = w\<lparr>disk := fs1,
                      logged := logged w @ [(INFO, ''Requesting design '' @ design_id
                                              @ '' from Canva API...'')],
                      posted := posted w @ [post_call design_id api_key format]\<rparr>
           in case request_design service (post_call design_id api_key format) of
                Inr r \<Rightarrow>
                  (case open_wb_write fs1 (output_path design_id output_dir format) (content r) of
                     Inl e \<Rightarrow> (Inl e, w1)
                   | Inr fs2 \<Rightarrow>
                       (Inr (Some (output_path design_id output_dir format)),
                        w1\<lparr>disk := fs2,
                           logged := logged w1 @ [(INFO, ''Design downloaded successfully: ''
                                                    @ output_path design_id output_dir format)]\<rparr>))
              | Inl e \<Rightarrow>
                  (Inr None,
                   w1\<lparr>logged := logged w1 @ [(ERROR, ''API request failed: '' @ exception_text e)]
                              @ (case exception_response e of
                                   Some r \<Rightarrow> [(ERROR, ''Status code: '' @ str_int (status_code r))]
                                 | None \<Rightarrow> [])\<rparr>)))"

section \<open>The entry point\<close>

text \<open>The parsed command line, and the value of \<^verbatim>\<open>os.environ.get("CANVA_API_KEY")\<close>.\<close>

record args =
  args_url :: string
  args_api_key :: "string option"
  args_output_dir :: string
  args_format :: string

definition no_api_key_message :: string where
  "no_api_key_message =
     ''No API key provided. Use --api-key or set CANVA_API_KEY environment variable.''"

text \<open>\<^verbatim>\<open>args.api_key or os.environ.get("CANVA_API_KEY")\<close>: the flag unless it is \<^verbatim>\<open>None\<close> or
  the empty string.\<close>

definition api_key_or_environ :: "string option \<Rightarrow> string option \<Rightarrow> string option" where
  "api_key_or_environ flag environ_key =
     (case flag of
        Some k \<Rightarrow> (if k \<noteq> [] then Some k else environ_key)
      | None \<Rightarrow> environ_key)"

definition main ::
  "pylib \<Rightarrow> http_service \<Rightarrow> args \<Rightarrow> string option \<Rightarrow> world \<Rightarrow> (py_exception + unit) \<times> world"
where
  "main L service a environ_key w =
     (let api_key = api_key_or_environ (args_api_key a) environ_key
      in if api_key = None \<or> api_key = Some [] then
           (Inr (), w\<lparr>logged := logged w @ [(ERROR, no_api_key_message)]\<rparr>)
         else
           (case extract_design_id L (args_url a) of
              Inl e \<Rightarrow> (Inl e, w)
            | Inr (design_id, records) \<Rightarrow>
                (let w1 = w\<lparr>logged := logged w @ records\<rparr>
                 in if design_id = None \<or> design_id = Some [] then
                      (Inr (), w1\<lparr>logged := logged w1
                                     @ [(ERROR, ''Failed to extract design ID. Exiting.'')]\<rparr>)
                    else
                      (case download_canva_design service (the design_id) (the api_key)
                              (args_output_dir a) (args_format a) w1 of
                         (Inl e, w2) \<Rightarrow> (Inl e, w2)
                       | (Inr p, w2) \<Rightarrow>
                           (Inr (), w2\<lparr>logged := logged w2 @ [(INFO, ''Sync completed.'')]\<rparr>)))))"

section \<open>Concrete worlds and services\<close>

text \<open>An empty file system whose current directory is the root, and services that answer
  every request with a given status and body, or refuse the connection.\<close>

definition fresh_world :: world where
  "fresh_world = \<lparr> disk = \<lparr> dirs = [], files = [], cwd = [] \<rparr>, logged = [], posted = [] \<rparr>"

definition respond :: "int \<Rightarrow> string \<Rightarrow> http_service" where
  "respond st body req =
     Inr \<lparr> status_code = st, reason = ''-'', response_url = request_url req, content = body \<rparr>"

definition refuse :: http_service where
  "refuse req = Inl (RequestException ''Connection refused'' None)"

section \<open>Properties of the list and string helpers\<close>

lemma py_index_append: "x \<notin> set pre \<Longrightarrow> py_index x (pre @ x # rest) = Some (length pre)"
  by (induction pre) auto

lemma py_index_None: "(py_index x xs = None) = (x \<notin> set xs)"
  by (induction xs) auto

lemma py_index_Some:
  "py_index x xs = Some i \<Longrightarrow> i < length xs \<and> xs ! i = x \<and> x \<notin> set (take i xs)"
  by (induction xs arbitrary: i) (auto split: if_splits)

lemma py_index_decomp:
  "py_index x xs = Some i \<Longrightarrow> xs = take i xs @ x # drop (Suc i) xs \<and> x \<notin> set (take i xs)"
  using py_index_Some[of x xs i] by (auto simp: id_take_nth_drop)

lemma py_split_not_Nil: "py_split c s \<noteq> []"
  by (induction s) (auto split: list.splits)

lemma py_split_single: "py_split c s = [[]] \<Longrightarrow> s = []"
  using py_split_not_Nil[of c "tl s"] by (cases s) (auto split: if_splits list.splits)

section \<open>Properties of the query parser\<close>

text \<open>The dictionary of \<^verbatim>\<open>parse_qs\<close> maps a name to the values of the fields of that name, in
  the order of the query string; no name is mapped to an empty list.\<close>

lemma foldl_parse_qs_add:
  "foldl parse_qs_add m nvs k =
     (case (case m k of Some vs \<Rightarrow> vs | None \<Rightarrow> []) @ map snd (filter (\<lambda>nv. fst nv = k) nvs) of
        [] \<Rightarrow> (case m k of Some vs \<Rightarrow> Some [] | None \<Rightarrow> None)
      | v # vs \<Rightarrow> Some (v # vs))"
proof (induction nvs arbitrary: m)
  case Nil
  then show ?case by (simp split: option.splits list.splits)
next
  case (Cons nv nvs)
  show ?case
    by (simp add: Cons.IH) (auto simp: parse_qs_add_def split: option.splits list.splits)
qed

lemma parse_qs_lookup:
  "parse_qs L qs k =
     (case map snd (filter (\<lambda>nv. fst nv = k) (parse_qsl L qs)) of
        [] \<Rightarrow> None
      | v # vs \<Rightarrow> Some (v # vs))"
  by (simp add: parse_qs_def foldl_parse_qs_add split: list.splits)

lemma map_of_filter_hd:
  "map_of nvs k =
     (case map snd (filter (\<lambda>nv. fst nv = k) nvs) of [] \<Rightarrow> None | v # vs \<Rightarrow> Some v)"
  by (induction nvs) (auto split: list.splits)

lemma parse_qs_first: "map_option hd (parse_qs L qs k) = map_of (parse_qsl L qs) k"
  by (simp add: parse_qs_lookup map_of_filter_hd split: list.splits)

lemma parse_qs_not_Nil: "parse_qs L qs k \<noteq> Some []"
  by (simp add: parse_qs_lookup split: list.splits)

lemma parse_qs_first_in_fields:
  assumes "parse_qs L qs k = Some (v # vs)"
  shows "(k, v) \<in> set (parse_qsl L qs)"
proof -
  have "map_of (parse_qsl L qs) k = Some v"
    using parse_qs_first[of L qs k] assms by simp
  then show ?thesis by (rule map_of_SomeD)
qed

lemma parse_qs_of_first_field:
  assumes "map_of (parse_qsl L qs) k = Some v"
  shows "\<exists>vs. parse_qs L qs k = Some (v # vs)"
  using assms parse_qs_first[of L qs k] parse_qs_not_Nil[of L qs k]
  by (cases "parse_qs L qs k"; cases "the (parse_qs L qs k)") auto

text \<open>Percent-decoding never makes a non-empty text empty, provided the byte decoder does
  not.\<close>

lemma unquote_item_not_Nil: "unquote_item item \<noteq> []"
  by (simp add: unquote_item_def split: list.splits)

lemma unquote_to_bytes_not_Nil:
  assumes "r \<noteq> []"
  shows "unquote_to_bytes r \<noteq> []"
proof -
  obtain b bits where sp: "py_split CHR ''%'' r = b # bits"
    using py_split_not_Nil[of "CHR ''%''" r] by (cases "py_split CHR ''%'' r") auto
  show ?thesis
  proof (cases "b = []")
    case True
    then have "bits \<noteq> []" using sp assms py_split_single[of "CHR ''%''" r] by auto
    then obtain x xs where "bits = x # xs" by (cases bits) auto
    then show ?thesis using sp by (simp add: unquote_to_bytes_def unquote_item_not_Nil)
  next
    case False
    then show ?thesis using sp by (simp add: unquote_to_bytes_def)
  qed
qed

lemma ascii_runs_hd: "s \<noteq> [] \<Longrightarrow> \<exists>b r rest. ascii_runs s = (b, r) # rest \<and> r \<noteq> []"
  by (cases s) (auto split: list.splits)

lemma unquote_not_Nil:
  assumes dec: "\<And>bs. bs \<noteq> [] \<Longrightarrow> decode_utf8_replace L bs \<noteq> []" and s: "s \<noteq> []"
  shows "unquote L s \<noteq> []"
proof (cases "CHR ''%'' \<in> set s")
  case False
  then show ?thesis using s by (simp add: unquote_def)
next
  case True
  obtain b r rest where runs: "ascii_runs s = (b, r) # rest" "r \<noteq> []"
    using ascii_runs_hd[OF s] by blast
  show ?thesis
    using True runs dec[OF unquote_to_bytes_not_Nil[OF runs(2)]]
    by (simp add: unquote_def)
qed

lemma unquote_plus_not_Nil:
  assumes "\<And>bs. bs \<noteq> [] \<Longrightarrow> decode_utf8_replace L bs \<noteq> []" and "s \<noteq> []"
  shows "unquote_plus L s \<noteq> []"
  unfolding unquote_plus_def using assms by (intro unquote_not_Nil) auto

lemma parse_qsl_values_not_Nil:
  assumes dec: "\<And>bs. bs \<noteq> [] \<Longrightarrow> decode_utf8_replace L bs \<noteq> []"
      and "(n, v) \<in> set (parse_qsl L qs)"
  shows "v \<noteq> []"
  using assms(2) unquote_plus_not_Nil[OF dec]
  by (auto simp: parse_qsl_def parse_qsl_field_def Let_def split: if_splits)

section \<open>The identifier extractor: path strategy\<close>

text \<open>The path strategy yields nothing exactly when the path has no \<open>design\<close> segment or
  its first \<open>design\<close> segment is the last segment.\<close>

lemma in_path_None_iff:
  "((case py_index ''design'' parts of
       None \<Rightarrow> None
     | Some i \<Rightarrow>
         (let design_index = i + 1
          in if design_index < length parts then Some (parts ! design_index) else None)) = None)
   = (''design'' \<notin> set parts
      \<or> (\<exists>pre. parts = pre @ [''design''] \<and> ''design'' \<notin> set pre))"
proof (cases "py_index ''design'' parts")
  case None
  then have "''design'' \<notin> set parts" by (simp add: py_index_None)
  then show ?thesis by (simp add: None)
next
  case (Some i)
  note d = py_index_decomp[OF Some]
  have "''design'' \<in> set parts" using Some py_index_None[of "''design''" parts] by auto
  moreover have "(\<not> i + 1 < length parts)
                 = (\<exists>pre. parts = pre @ [''design''] \<and> ''design'' \<notin> set pre)"
  proof
    assume "\<not> i + 1 < length parts"
    then have "drop (Suc i) parts = []" by simp
    then show "\<exists>pre. parts = pre @ [''design''] \<and> ''design'' \<notin> set pre"
      using d by (intro exI[of _ "take i parts"]) simp
  next
    assume "\<exists>pre. parts = pre @ [''design''] \<and> ''design'' \<notin> set pre"
    then obtain pre where pre: "parts = pre @ [''design'']" "''design'' \<notin> set pre" by blast
    then have "py_index ''design'' parts = Some (length pre)" by (simp add: py_index_append)
    then show "\<not> i + 1 < length parts" using Some pre by simp
  qed
  ultimately show ?thesis using Some by (auto simp: Let_def)
qed

text \<open>
  Claim C2.  For every URL that \<^verbatim>\<open>urlparse\<close> accepts and whose path, split at \<open>/\<close>, has the
  segment \<open>design\<close> followed by a further segment \<open>T\<close>, the extractor returns exactly \<open>T\<close>
  and logs it.  "The marker segment" is the first segment equal to \<open>design\<close>, the one
  \<^verbatim>\<open>path_parts.index('design')\<close> finds.  Nothing is assumed about the query string: the
  result is \<open>T\<close> whatever the query is, the query is not parsed on this branch.
\<close>

theorem extract_design_id_path_segment:
  assumes "urlparse L url = Inr p"
      and "py_split CHR ''/'' (path p) = pre @ ''design'' # T # post"
      and "''design'' \<notin> set pre"
  shows "extract_design_id L url = Inr (Some T, [(INFO, ''Extracted design ID: '' @ T)])"
  using assms
  by (simp add: extract_design_id_def extract_design_id_try_def Let_def py_index_append
        nth_append)

theorem extract_design_id_path_segment_witness:
  "urlparse ascii_lib ''https://example.com/design/ABC123/view''
     = Inr \<lparr>scheme = ''https'', netloc = ''example.com'', path = ''/design/ABC123/view'',
            query = [], fragment = []\<rparr>
   \<and> py_split CHR ''/'' ''/design/ABC123/view'' = [[]] @ ''design'' # ''ABC123'' # [''view'']
   \<and> ''design'' \<notin> set [[]]
   \<and> extract_design_id ascii_lib ''https://example.com/design/ABC123/view''
       = Inr (Some ''ABC123'', [(INFO, ''Extracted design ID: ABC123'')])"
proof -
  have p: "urlparse ascii_lib ''https://example.com/design/ABC123/view''
     = Inr \<lparr>scheme = ''https'', netloc = ''example.com'', path = ''/design/ABC123/view'',
            query = [], fragment = []\<rparr>"
    by code_simp
  have s: "py_split CHR ''/'' ''/design/ABC123/view'' = [[]] @ ''design'' # ''ABC123'' # [''view'']"
    by code_simp
  have n: "''design'' \<notin> set [[]]" by simp
  show ?thesis
    using extract_design_id_path_segment[OF p, of "[[]]" "''ABC123''" "[''view'']"] p s n
    by simp
qed

section \<open>The identifier extractor: query strategy\<close>

text \<open>
  Claim C3 as stated fails for a parameter with a blank value: \<^verbatim>\<open>parse_qs\<close> is called with its
  defaults and drops such a field.  A query string that consists of \<open>utm_content=\<close> contains
  the parameter, and the extractor returns \<^verbatim>\<open>None\<close>; for \<open>utm_content=&utm_content=X\<close> it
  returns \<open>X\<close>, which is the second value of the parameter, the first being blank.
\<close>

theorem extract_design_id_blank_query_value:
  "extract_design_id ascii_lib ''https://www.canva.com/share?utm_content=''
     = Inr (None, [(ERROR, ''Could not extract design ID from URL.'')])
   \<and> extract_design_id ascii_lib ''https://www.canva.com/share?utm_content=&utm_content=X''
       = Inr (Some ''X'', [(INFO, ''Extracted design ID from query: X'')])"
  by code_simp

text \<open>
  Claim C3, amended.  For every URL that \<^verbatim>\<open>urlparse\<close> accepts, whose path has no \<open>design\<close>
  segment or has its first \<open>design\<close> segment as last segment, and whose query string has a
  field named \<open>utm_content\<close> with a non-blank value, the extractor returns exactly the
  value of the first such field and logs it.  The fields are those \<^verbatim>\<open>parse_qs\<close> reads:
  \<open>name=value\<close> pairs separated by \<open>&\<close>, with name and value percent-decoded, a pair with a
  blank value not being a field.
\<close>

theorem extract_design_id_query_parameter:
  assumes "urlparse L url = Inr p"
      and "''design'' \<notin> set (py_split CHR ''/'' (path p))
           \<or> (\<exists>pre. py_split CHR ''/'' (path p) = pre @ [''design''] \<and> ''design'' \<notin> set pre)"
      and "map_of (parse_qsl L (query p)) ''utm_content'' = Some v"
  shows "extract_design_id L url
           = Inr (Some v, [(INFO, ''Extracted design ID from query: '' @ v)])"
proof -
  obtain vs where vs: "parse_qs L (query p) ''utm_content'' = Some (v # vs)"
    using parse_qs_of_first_field[OF assms(3)] by blast
  show ?thesis
    using assms(1) assms(2)[folded in_path_None_iff] vs
    by (simp add: extract_design_id_def extract_design_id_try_def Let_def)
qed

theorem extract_design_id_query_parameter_witness:
  "urlparse ascii_lib ''https://www.canva.com/share?utm_content=XYZ789''
     = Inr \<lparr>scheme = ''https'', netloc = ''www.canva.com'', path = ''/share'',
            query = ''utm_content=XYZ789'', fragment = []\<rparr>
   \<and> ''design'' \<notin> set (py_split CHR ''/'' ''/share'')
   \<and> map_of (parse_qsl ascii_lib ''utm_content=XYZ789'') ''utm_content'' = Some ''XYZ789''
   \<and> extract_design_id ascii_lib ''https://www.canva.com/share?utm_content=XYZ789''
       = Inr (Some ''XYZ789'', [(INFO, ''Extracted design ID from query: XYZ789'')])"
proof -
  let ?p = "\<lparr>scheme = ''https'', netloc = ''www.canva.com'', path = ''/share'',
            query = ''utm_content=XYZ789'', fragment = []\<rparr>"
  have p: "urlparse ascii_lib ''https://www.canva.com/share?utm_content=XYZ789'' = Inr ?p"
    by code_simp
  have s: "''design'' \<notin> set (py_split CHR ''/'' ''/share'')"
    by code_simp
  have q: "map_of (parse_qsl ascii_lib ''utm_content=XYZ789'') ''utm_content'' = Some ''XYZ789''"
    by code_simp
  have "extract_design_id ascii_lib ''https://www.canva.com/share?utm_content=XYZ789''
       = Inr (Some ''XYZ789'', [(INFO, ''Extracted design ID from query: '' @ ''XYZ789'')])"
    by (rule extract_design_id_query_parameter[OF p]) (simp_all add: s q)
  then show ?thesis using p s q by simp
qed

section \<open>The identifier extractor: absent result\<close>

text \<open>
  Claim C4.  For every input string the extractor returns; it never raises.  If the string
  is not accepted by \<^verbatim>\<open>urlparse\<close> (it raises \<^verbatim>\<open>ValueError\<close>), or if it is accepted and neither
  strategy yields an identifier (no \<open>design\<close> segment with a segment after it, no
  \<open>utm_content\<close> field), the value returned is \<^verbatim>\<open>None\<close>.
\<close>

theorem extract_design_id_absent:
  "(\<exists>result records. extract_design_id L url = Inr (result, records))
   \<and> ((\<exists>e. urlparse L url = Inl e)
        \<or> (\<exists>p. urlparse L url = Inr p
              \<and> (''design'' \<notin> set (py_split CHR ''/'' (path p))
                  \<or> (\<exists>pre. py_split CHR ''/'' (path p) = pre @ [''design'']
                            \<and> ''design'' \<notin> set pre))
              \<and> map_of (parse_qsl L (query p)) ''utm_content'' = None)
       \<longrightarrow> (\<exists>records. extract_design_id L url = Inr (None, records)))"
proof -
  have total: "\<exists>result records. extract_design_id L url = Inr (result, records)"
    by (cases "extract_design_id_try L url") (auto simp: extract_design_id_def)
  have unparsable: "\<exists>records. extract_design_id L url = Inr (None, records)"
    if "urlparse L url = Inl e" for e
    using that by (simp add: extract_design_id_def extract_design_id_try_def)
  have neither: "\<exists>records. extract_design_id L url = Inr (None, records)"
    if p: "urlparse L url = Inr p"
    and a: "''design'' \<notin> set (py_split CHR ''/'' (path p))
           \<or> (\<exists>pre. py_split CHR ''/'' (path p) = pre @ [''design''] \<and> ''design'' \<notin> set pre)"
    and b: "map_of (parse_qsl L (query p)) ''utm_content'' = None" for p
  proof -
    have q: "parse_qs L (query p) ''utm_content'' = None"
      using b parse_qs_first[of L "query p" "''utm_content''"] by simp
    show ?thesis
      using p q a[folded in_path_None_iff]
      by (simp add: extract_design_id_def extract_design_id_try_def Let_def)
  qed
  show ?thesis using total unparsable neither by blast
qed

theorem extract_design_id_absent_witness:
  "urlparse ascii_lib ''http://[::1/design/x'' = Inl (ValueError ''Invalid IPv6 URL'')
   \<and> extract_design_id ascii_lib ''http://[::1/design/x''
       = Inr (None, [(ERROR, ''Error extracting design ID: Invalid IPv6 URL'')])"
proof -
  have p: "urlparse ascii_lib ''http://[::1/design/x'' = Inl (ValueError ''Invalid IPv6 URL'')"
    by code_simp
  have e: "extract_design_id ascii_lib ''http://[::1/design/x''
       = Inr (None, [(ERROR, ''Error extracting design ID: Invalid IPv6 URL'')])"
    by code_simp
  have "\<exists>records. extract_design_id ascii_lib ''http://[::1/design/x'' = Inr (None, records)"
    using extract_design_id_absent[of ascii_lib "''http://[::1/design/x''"] p by blast
  then show ?thesis using p e by simp
qed

section \<open>The identifier extractor: empty identifiers\<close>

text \<open>
  Claim C6 as stated fails: when the segment after the first \<open>design\<close> segment is empty, as in
  a path that ends in \<open>/design/\<close>, the extractor returns the empty string, not \<^verbatim>\<open>None\<close>.
\<close>

theorem extract_design_id_empty_identifier:
  "extract_design_id ascii_lib ''https://www.canva.com/design/''
     = Inr (Some [], [(INFO, ''Extracted design ID: '')])"
  by code_simp

text \<open>
  Claim C6, amended.  Whenever the extractor returns an identifier, the identifier is
  non-empty unless it is the empty segment that follows the first \<open>design\<close> segment of the
  path.  An identifier taken from the query string is never empty, since \<^verbatim>\<open>parse_qs\<close> drops
  blank values before it decodes them; this uses that decoding non-empty bytes gives a
  non-empty text.
\<close>

theorem extract_design_id_nonempty_unless_empty_segment:
  assumes dec: "\<And>bs. bs \<noteq> [] \<Longrightarrow> decode_utf8_replace L bs \<noteq> []"
      and res: "extract_design_id L url = Inr (Some design_id, records)"
  shows "design_id \<noteq> []
         \<or> (\<exists>p pre post. urlparse L url = Inr p
               \<and> py_split CHR ''/'' (path p) = pre @ ''design'' # [] # post
               \<and> ''design'' \<notin> set pre)"
proof (cases "urlparse L url")
  case (Inl e)
  then show ?thesis using res by (simp add: extract_design_id_def extract_design_id_try_def)
next
  case (Inr p)
  let ?parts = "py_split CHR ''/'' (path p)"
  have from_query: "design_id \<noteq> []"
    if "parse_qs L (query p) ''utm_content'' = Some (design_id # vs)" for vs
    using parse_qsl_values_not_Nil[OF dec parse_qs_first_in_fields[OF that]] .
  show ?thesis
  proof (cases "py_index ''design'' ?parts")
    case None
    then obtain vs where "parse_qs L (query p) ''utm_content'' = Some (design_id # vs)"
      using res Inr
      by (auto simp: extract_design_id_def extract_design_id_try_def Let_def
               split: option.splits list.splits)
    then show ?thesis using from_query by blast
  next
    case (Some i)
    show ?thesis
    proof (cases "i + 1 < length ?parts")
      case True
      then have id: "design_id = ?parts ! (i + 1)"
        using res Inr Some
        by (auto simp: extract_design_id_def extract_design_id_try_def Let_def)
      have "?parts = take i ?parts @ ''design'' # ?parts ! (i + 1) # drop (i + 2) ?parts"
        using py_index_decomp[OF Some] True
        by (metis Cons_nth_drop_Suc Suc_eq_plus1 add_2_eq_Suc')
      then show ?thesis
        using id py_index_decomp[OF Some] Inr by (cases "design_id = []") auto
    next
      case False
      then obtain vs where "parse_qs L (query p) ''utm_content'' = Some (design_id # vs)"
        using res Inr Some
        by (auto simp: extract_design_id_def extract_design_id_try_def Let_def
                 split: option.splits list.splits)
      then show ?thesis using from_query by blast
    qed
  qed
qed

theorem extract_design_id_nonempty_unless_empty_segment_witness:
  "extract_design_id ascii_lib ''https://www.canva.com/share?utm_content=a%2Fb''
       = Inr (Some ''a/b'', [(INFO, ''Extracted design ID from query: a/b'')])
   \<and> ((\<exists>p pre post.
             urlparse ascii_lib ''https://www.canva.com/share?utm_content=a%2Fb'' = Inr p
             \<and> py_split CHR ''/'' (path p) = pre @ ''design'' # [] # post
             \<and> ''design'' \<notin> set pre)
        \<or> ''a/b'' \<noteq> [])"
proof -
  have dec: "\<And>bs. bs \<noteq> [] \<Longrightarrow> decode_utf8_replace ascii_lib bs \<noteq> []"
    by (simp add: ascii_lib_def)
  have res: "extract_design_id ascii_lib ''https://www.canva.com/share?utm_content=a%2Fb''
       = Inr (Some ''a/b'', [(INFO, ''Extracted design ID from query: a/b'')])"
    by code_simp
  show ?thesis
    using extract_design_id_nonempty_unless_empty_segment[OF dec res] res by blast
qed

section \<open>Properties of the file system\<close>

lemma py_split_no_sep: "c \<notin> set b \<Longrightarrow> py_split c b = [b]"
  by (induction b) auto

lemma py_split_append_sep:
  "c \<notin> set b \<Longrightarrow> py_split c (a @ c # b) = py_split c a @ [b]"
proof (induction a)
  case Nil
  then show ?case by (simp add: py_split_no_sep)
next
  case (Cons x a)
  then show ?case
    using py_split_not_Nil[of c a] by (cases "py_split c a") auto
qed

lemma py_split_trailing:
  "py_split c (s @ replicate k c) = py_split c s @ replicate k []"
proof (induction k)
  case 0
  then show ?case by simp
next
  case (Suc k)
  have "py_split c ((s @ replicate k c) @ c # []) = py_split c (s @ replicate k c) @ [[]]"
    by (rule py_split_append_sep) simp
  then show ?case
    using Suc by (simp add: replicate_append_same flip: replicate_append_same)
qed

lemma py_rstrip_decomp: "\<exists>k. s = py_rstrip c s @ replicate k c"
proof (induction s rule: rev_induct)
  case Nil
  then show ?case by (simp add: py_rstrip_def)
next
  case (snoc x xs)
  show ?case
  proof (cases "x = c")
    case True
    from snoc obtain k where k: "xs = py_rstrip c xs @ replicate k c" by blast
    have "py_rstrip c (xs @ [x]) = py_rstrip c xs" using True by (simp add: py_rstrip_def)
    moreover have "xs @ [x] = py_rstrip c xs @ replicate (Suc k) c"
      using k True by (metis append.assoc replicate_append_same replicate_Suc)
    ultimately show ?thesis by metis
  next
    case False
    then have "py_rstrip c (xs @ [x]) = xs @ [x]" by (simp add: py_rstrip_def)
    then show ?thesis by (intro exI[of _ 0]) simp
  qed
qed

text \<open>Path resolution that succeeds keeps succeeding, with the same result, when
  directories are added, and does not depend on the regular files.\<close>

lemma is_dir_mono: "set (dirs fs) \<subseteq> set (dirs fs') \<Longrightarrow> is_dir fs n \<Longrightarrow> is_dir fs' n"
  by (auto simp: is_dir_def)

lemma walk_mono:
  "set (dirs fs) \<subseteq> set (dirs fs') \<Longrightarrow> walk fs cur cs = Inr n \<Longrightarrow> walk fs' cur cs = Inr n"
proof (induction cs arbitrary: cur)
  case Nil
  then show ?case by simp
next
  case (Cons c cs)
  show ?case
  proof (cases "c = [] \<or> c = ''.''")
    case True
    then show ?thesis using Cons by auto
  next
    case nd: False
    show ?thesis
    proof (cases "c = ''..''")
      case True
      then show ?thesis using Cons nd by simp
    next
      case False
      with nd Cons.prems(2) have d: "is_dir fs (cur @ [c])" and w: "walk fs (cur @ [c]) cs = Inr n"
        by (auto split: if_splits)
      have "is_dir fs' (cur @ [c])" using d Cons.prems(1) by (rule is_dir_mono[rotated])
      then show ?thesis using Cons.IH[OF Cons.prems(1) w] nd False by simp
    qed
  qed
qed

lemma walk_append:
  "walk fs cur (xs @ ys) = (case walk fs cur xs of Inr n \<Rightarrow> walk fs n ys | Inl e \<Rightarrow> Inl e)"
  by (induction fs cur xs rule: walk.induct) auto

lemma walk_empty_components: "walk fs cur (replicate k []) = Inr cur"
  by (induction k) auto

lemma walk_files_irrelevant:
  "dirs fs' = dirs fs \<Longrightarrow> (walk fs' cur cs = Inr n) = (walk fs cur cs = Inr n)"
  by (induction fs cur cs rule: walk.induct) (auto simp: is_dir_def)

text \<open>\<^verbatim>\<open>os.mkdir\<close> and \<^verbatim>\<open>os.makedirs\<close> only add directories: they leave every file and the
  current directory as they are, whether they return or raise.\<close>

lemma mkdir_frame:
  assumes "mkdir fs p = Inr fs'"
  shows "files fs' = files fs \<and> cwd fs' = cwd fs \<and> set (dirs fs) \<subseteq> set (dirs fs')"
  using assms by (auto simp: mkdir_def Let_def split: if_splits sum.splits)

lemma makedirs_mkdir_frame:
  assumes "makedirs_mkdir fs name = (r, fs')"
  shows "files fs' = files fs \<and> cwd fs' = cwd fs \<and> set (dirs fs) \<subseteq> set (dirs fs')"
proof (cases "mkdir fs name")
  case (Inl e)
  then show ?thesis using assms by (auto simp: makedirs_mkdir_def split: if_splits)
next
  case (Inr fs2)
  then show ?thesis using assms mkdir_frame[OF Inr] by (simp add: makedirs_mkdir_def)
qed

lemma makedirs_frame:
  "makedirs fs name = (r, fs') \<Longrightarrow>
     files fs' = files fs \<and> cwd fs' = cwd fs \<and> set (dirs fs) \<subseteq> set (dirs fs')"
proof (induction fs name arbitrary: r fs' rule: makedirs.induct)
  case (1 fs name)
  let ?head = "fst (makedirs_split name)"
  let ?tail = "snd (makedirs_split name)"
  show ?case
  proof (cases "?head \<noteq> [] \<and> ?tail \<noteq> [] \<and> \<not> path_exists fs ?head")
    case False
    then have "makedirs_mkdir fs name = (r, fs')"
      using "1.prems" by (subst (asm) makedirs.simps) auto
    then show ?thesis by (rule makedirs_mkdir_frame)
  next
    case True
    obtain r0 fs0 where sub: "makedirs fs ?head = (r0, fs0)" by (cases "makedirs fs ?head")
    have f0: "files fs0 = files fs \<and> cwd fs0 = cwd fs \<and> set (dirs fs) \<subseteq> set (dirs fs0)"
      using "1.IH"[OF True sub] .
    have "fs' = fs0 \<or> makedirs_mkdir fs0 name = (r, fs')"
      using "1.prems" True sub
      by (subst (asm) makedirs.simps) (auto split: option.splits if_splits)
    then show ?thesis
    proof
      assume "fs' = fs0"
      then show ?thesis using f0 by simp
    next
      assume "makedirs_mkdir fs0 name = (r, fs')"
      from makedirs_mkdir_frame[OF this] f0 show ?thesis by auto
    qed
  qed
qed

text \<open>When \<^verbatim>\<open>os.mkdir\<close> returns, its argument names a directory.  When \<^verbatim>\<open>os.makedirs\<close> returns,
  its argument names a directory provided the tail of the name is not \<open>.\<close>: for such a tail
  the call can return on the way without having made or found the directory.\<close>

lemma mkdir_isdir:
  assumes "mkdir fs p = Inr fs'"
  shows "path_isdir fs' p"
proof -
  let ?q = "py_rstrip CHR ''/'' p"
  let ?comps = "py_split CHR ''/'' ?q"
  from assms have ne: "p \<noteq> []" by (auto simp: mkdir_def split: if_splits)
  from assms ne obtain d where d: "walk fs (start_dir fs p) (butlast ?comps) = Inr d"
    by (auto simp: mkdir_def Let_def split: if_splits sum.splits)
  let ?c = "last ?comps"
  from assms ne d have c: "?c \<noteq> []" "?c \<noteq> ''.''" "?c \<noteq> ''..''"
    and fs': "fs' = fs\<lparr>dirs := (d @ [?c]) # dirs fs\<rparr>"
    by (auto simp: mkdir_def Let_def split: if_splits)
  have sub: "set (dirs fs) \<subseteq> set (dirs fs')" using fs' by auto
  have st: "start_dir fs' p = start_dir fs p" using fs' by (simp add: start_dir_def)
  obtain k where k: "p = ?q @ replicate k CHR ''/''" using py_rstrip_decomp by blast
  have "py_split CHR ''/'' p = py_split CHR ''/'' (?q @ replicate k CHR ''/'')"
    using k by simp
  then have sp: "py_split CHR ''/'' p = (butlast ?comps @ [?c]) @ replicate k []"
    by (simp add: py_split_trailing py_split_not_Nil)
  have w1: "walk fs' (start_dir fs p) (butlast ?comps) = Inr d"
    using walk_mono[OF sub d] .
  have "is_dir fs' (d @ [?c])" using fs' by (simp add: is_dir_def)
  then have wc: "walk fs' d [?c] = Inr (d @ [?c])" using c by simp
  have "walk fs' (start_dir fs p) (butlast ?comps @ [?c]) = Inr (d @ [?c])"
    using w1 wc by (simp only: walk_append sum.case)
  then have "walk fs' (start_dir fs p) ((butlast ?comps @ [?c]) @ replicate k []) = Inr (d @ [?c])"
    by (simp only: walk_append[of _ _ "butlast ?comps @ [?c]"] sum.case walk_empty_components)
  then have "walk fs' (start_dir fs' p) (py_split CHR ''/'' p) = Inr (d @ [?c])"
    using sp st by simp
  then show ?thesis using ne by (simp add: path_isdir_def)
qed

lemma makedirs_mkdir_isdir:
  assumes "makedirs_mkdir fs name = (None, fs')"
  shows "path_isdir fs' name"
proof (cases "mkdir fs name")
  case (Inl e)
  then show ?thesis using assms by (auto simp: makedirs_mkdir_def split: if_splits)
next
  case (Inr fs2)
  then show ?thesis using assms mkdir_isdir[OF Inr] by (simp add: makedirs_mkdir_def)
qed

lemma makedirs_isdir_unless_dot:
  assumes "makedirs fs name = (None, fs')" and "snd (makedirs_split name) \<noteq> ''.''"
  shows "path_isdir fs' name"
proof -
  let ?head = "fst (makedirs_split name)"
  obtain r0 fs0 where sub: "makedirs fs ?head = (r0, fs0)" by (cases "makedirs fs ?head")
  have "makedirs_mkdir fs name = (None, fs') \<or> makedirs_mkdir fs0 name = (None, fs')"
    using assms sub
    by (subst (asm) makedirs.simps) (auto split: option.splits if_splits)
  then show ?thesis using makedirs_mkdir_isdir by blast
qed

















text \<open>Writing a file changes no directory; the file then holds exactly what was written,
  whatever it held before; and a path that could be written can be written again.\<close>

lemma open_wb_write_frame:
  assumes "open_wb_write fs p data = Inr fs'"
  shows "dirs fs' = dirs fs \<and> cwd fs' = cwd fs"
  using assms by (auto simp: open_wb_write_def Let_def split: if_splits sum.splits)

lemma read_after_write:
  assumes "open_wb_write fs p data = Inr fs'"
  shows "read_file fs' p = Some data"
proof -
  from assms have ne: "p \<noteq> []" by (auto simp: open_wb_write_def split: if_splits)
  from assms ne obtain d where d: "walk fs (start_dir fs p) (butlast (py_split CHR ''/'' p)) = Inr d"
    by (auto simp: open_wb_write_def split: sum.splits)
  let ?c = "last (py_split CHR ''/'' p)"
  from assms ne d have c: "?c \<noteq> []" "?c \<noteq> ''.''" "?c \<noteq> ''..''"
    and fs': "fs' = fs\<lparr>files := (d @ [?c], data) # filter (\<lambda>kv. fst kv \<noteq> d @ [?c]) (files fs)\<rparr>"
    by (auto simp: open_wb_write_def Let_def split: if_splits)
  have fr: "dirs fs' = dirs fs" "cwd fs' = cwd fs" using fs' by simp_all
  have "start_dir fs' p = start_dir fs p" using fr by (simp add: start_dir_def)
  then have "walk fs' (start_dir fs' p) (butlast (py_split CHR ''/'' p)) = Inr d"
    using d walk_files_irrelevant[OF fr(1)] by simp
  then show ?thesis using ne c fs' by (simp add: read_file_def Let_def)
qed

lemma path_isdir_files_irrelevant:
  "dirs fs' = dirs fs \<Longrightarrow> cwd fs' = cwd fs \<Longrightarrow> path_isdir fs' p = path_isdir fs p"
proof -
  assume a: "dirs fs' = dirs fs" "cwd fs' = cwd fs"
  have "(\<exists>n. walk fs' (start_dir fs p) (py_split CHR ''/'' p) = Inr n)
        = (\<exists>n. walk fs (start_dir fs p) (py_split CHR ''/'' p) = Inr n)"
    using walk_files_irrelevant[OF a(1)] by simp
  moreover have "start_dir fs' p = start_dir fs p" using a by (simp add: start_dir_def)
  ultimately show ?thesis
    by (cases "walk fs' (start_dir fs p) (py_split CHR ''/'' p)";
        cases "walk fs (start_dir fs p) (py_split CHR ''/'' p)")
       (auto simp: path_isdir_def)
qed

lemma open_wb_write_again:
  assumes "open_wb_write fs p data = Inr fs'"
  shows "\<exists>fs''. open_wb_write fs' p data' = Inr fs''"
proof -
  from assms have ne: "p \<noteq> []" by (auto simp: open_wb_write_def split: if_splits)
  from assms ne obtain d where d: "walk fs (start_dir fs p) (butlast (py_split CHR ''/'' p)) = Inr d"
    by (auto simp: open_wb_write_def split: sum.splits)
  let ?c = "last (py_split CHR ''/'' p)"
  from assms ne d have c: "?c \<noteq> []" "?c \<noteq> ''.''" "?c \<noteq> ''..''" "\<not> is_dir fs (d @ [?c])"
    by (auto simp: open_wb_write_def Let_def split: if_splits)
  have fr: "dirs fs' = dirs fs" "cwd fs' = cwd fs" using open_wb_write_frame[OF assms] by simp_all
  have "start_dir fs' p = start_dir fs p" using fr by (simp add: start_dir_def)
  then have "walk fs' (start_dir fs' p) (butlast (py_split CHR ''/'' p)) = Inr d"
    using d walk_files_irrelevant[OF fr(1)] by simp
  moreover have "\<not> is_dir fs' (d @ [?c])" using c fr by (simp add: is_dir_def)
  ultimately show ?thesis using ne c by (simp add: open_wb_write_def Let_def)
qed

text \<open>A sufficient condition for the write: in a directory that exists, a file name without
  \<open>/\<close>, other than \<open>.\<close> and \<open>..\<close>, that does not name a directory can be written.\<close>

lemma open_wb_write_in_directory:
  assumes dir: "path_isdir fs1 output_dir"
      and name: "CHR ''/'' \<notin> set name" "name \<noteq> []" "name \<noteq> ''.''" "name \<noteq> ''..''"
      and nodir: "\<not> path_isdir fs1 (path_join output_dir name)"
  shows "\<exists>fs2. open_wb_write fs1 (path_join output_dir name) data = Inr fs2"
proof -
  from dir have ne: "output_dir \<noteq> []" by (simp add: path_isdir_def)
  from dir ne obtain n where n: "walk fs1 (start_dir fs1 output_dir) (py_split CHR ''/'' output_dir) = Inr n"
    by (auto simp: path_isdir_def split: sum.splits)
  from name have nb: "take 1 name \<noteq> ''/''" by (cases name) auto
  let ?p = "path_join output_dir name"
  have pne: "?p \<noteq> []" using ne name(2) by (simp add: path_join_def)
  have st: "start_dir fs1 ?p = start_dir fs1 output_dir"
    using ne nb by (cases output_dir) (auto simp: start_dir_def path_join_def)
  have "\<exists>front. py_split CHR ''/'' ?p = front @ [name]
          \<and> walk fs1 (start_dir fs1 output_dir) front = Inr n"
  proof (cases "last output_dir = CHR ''/''")
    case True
    then obtain d where d: "output_dir = d @ ''/''"
      using ne by (metis append_butlast_last_id)
    have p: "?p = d @ CHR ''/'' # name" using d nb True ne by (simp add: path_join_def)
    have "py_split CHR ''/'' output_dir = py_split CHR ''/'' d @ [[]]"
      using py_split_append_sep[of "CHR ''/''" "[]" d] d by simp
    then have "walk fs1 (start_dir fs1 output_dir) (py_split CHR ''/'' d) = Inr n"
      using n by (simp add: walk_append split: sum.splits)
    then show ?thesis using p py_split_append_sep[of "CHR ''/''" name d] name by auto
  next
    case False
    then have p: "?p = output_dir @ CHR ''/'' # name" using nb ne by (simp add: path_join_def)
    show ?thesis using p n py_split_append_sep[of "CHR ''/''" name output_dir] name by auto
  qed
  then obtain front where sp: "py_split CHR ''/'' ?p = front @ [name]"
    and fr: "walk fs1 (start_dir fs1 output_dir) front = Inr n" by blast
  have "\<not> is_dir fs1 (n @ [name])"
    using nodir pne st sp fr name by (auto simp: path_isdir_def walk_append split: sum.splits)
  then show ?thesis
    using pne st sp fr name by (simp add: open_wb_write_def Let_def)
qed

text \<open>Where the output directory is not empty and does not end in \<open>/\<close>, and the identifier does
  not start with \<open>/\<close>, the output path is the directory, a \<open>/\<close> and the file name.\<close>

lemma output_path_literal:
  assumes "output_dir \<noteq> []" "last output_dir \<noteq> CHR ''/''" "take 1 design_id \<noteq> ''/''"
  shows "path_join output_dir (design_id @ ''.'' @ py_lower format)
           = output_dir @ ''/'' @ design_id @ ''.'' @ py_lower format"
  using assms by (cases design_id) (auto simp: path_join_def)


section \<open>The paths through \<^verbatim>\<open>download_canva_design\<close>\<close>

lemma download_makedirs_raises:
  assumes "makedirs (disk w) output_dir = (Some e, fs1)"
  shows "download_canva_design service design_id api_key output_dir format w
           = (Inl e, w\<lparr>disk := fs1\<rparr>)"
  using assms by (simp add: download_canva_design_def)

lemma download_request_fails:
  assumes "makedirs (disk w) output_dir = (None, fs1)"
      and "request_design service (post_call design_id api_key format) = Inl e"
  shows "fst (download_canva_design service design_id api_key output_dir format w) = Inr None"
    and "disk (snd (download_canva_design service design_id api_key output_dir format w)) = fs1"
    and "posted (snd (download_canva_design service design_id api_key output_dir format w))
           = posted w @ [post_call design_id api_key format]"
  using assms by (simp_all add: download_canva_design_def Let_def)

lemma download_write_raises:
  assumes "makedirs (disk w) output_dir = (None, fs1)"
      and "request_design service (post_call design_id api_key format) = Inr r"
      and "open_wb_write fs1 (output_path design_id output_dir format) (content r) = Inl e"
  shows "fst (download_canva_design service design_id api_key output_dir format w) = Inl e"
    and "disk (snd (download_canva_design service design_id api_key output_dir format w)) = fs1"
    and "posted (snd (download_canva_design service design_id api_key output_dir format w))
           = posted w @ [post_call design_id api_key format]"
  using assms by (simp_all add: download_canva_design_def Let_def)

lemma download_writes:
  assumes "makedirs (disk w) output_dir = (None, fs1)"
      and "request_design service (post_call design_id api_key format) = Inr r"
      and "open_wb_write fs1 (output_path design_id output_dir format) (content r) = Inr fs2"
  shows "fst (download_canva_design service design_id api_key output_dir format w)
           = Inr (Some (output_path design_id output_dir format))"
    and "disk (snd (download_canva_design service design_id api_key output_dir format w)) = fs2"
    and "posted (snd (download_canva_design service design_id api_key output_dir format w))
           = posted w @ [post_call design_id api_key format]"
  using assms by (simp_all add: download_canva_design_def Let_def)


lemma request_design_accepts:
  "service req = Inr r \<Longrightarrow> \<not> (400 \<le> status_code r \<and> status_code r < 600)
     \<Longrightarrow> request_design service req = Inr r"
  by (auto simp: request_design_def raise_for_status_def)

lemma request_design_rejects:
  "(\<exists>e. service req = Inl e) \<or> (\<exists>r. service req = Inr r \<and> 400 \<le> status_code r \<and> status_code r < 600)
     \<Longrightarrow> \<exists>e. request_design service req = Inl e"
  by (auto simp: request_design_def raise_for_status_def)

lemma request_design_Inr:
  "request_design service req = Inr r \<Longrightarrow> service req = Inr r"
  by (auto simp: request_design_def split: sum.splits)

lemma download_posted:
  "posted (snd (download_canva_design service design_id api_key output_dir format w))
     = posted w @ (if fst (makedirs (disk w) output_dir) = None
                   then [post_call design_id api_key format] else [])"
  by (auto simp: download_canva_design_def Let_def split: prod.splits option.splits sum.splits)


section \<open>The design fetcher: a successful export\<close>

text \<open>
  Claim C1 as stated fails: a request that succeeds does not make the write succeed.  With
  the identifier \<open>a/b\<close>, which the query parameter can carry, the output path is
  \<open>canva_designs/a/b.pdf\<close>; its directory \<open>canva_designs/a\<close> does not exist, \<^verbatim>\<open>open\<close> raises
  \<^verbatim>\<open>FileNotFoundError\<close>, which is not a \<^verbatim>\<open>RequestException\<close> and escapes, and no file is
  written.
\<close>

theorem download_unwritable_path_raises:
  "respond 200 ''%PDF-1.7'' (post_call ''a/b'' ''key'' ''pdf'')
     = Inr \<lparr>status_code = 200, reason = ''-'',
            response_url = ''https://api.canva.com/v1/designs/a/b/export'',
            content = ''%PDF-1.7''\<rparr>
   \<and> fst (download_canva_design (respond 200 ''%PDF-1.7'') ''a/b'' ''key'' ''canva_designs'' ''pdf''
            fresh_world) = Inl FileNotFoundError
   \<and> files (disk (snd (download_canva_design (respond 200 ''%PDF-1.7'') ''a/b'' ''key''
                          ''canva_designs'' ''pdf'' fresh_world))) = []"
  by code_simp

text \<open>
  Claim C1, amended.  If \<^verbatim>\<open>os.makedirs\<close> has returned, the export request is answered with a
  2xx status and body \<open>B\<close>, and the output path
  \<^verbatim>\<open>os.path.join(output_dir, identifier + "." + format.lower())\<close> can be opened for writing,
  then the fetcher returns that path and the file at that path holds exactly \<open>B\<close>.
\<close>

theorem download_writes_payload:
  assumes mk: "makedirs (disk w) output_dir = (None, fs1)"
      and resp: "service (post_call design_id api_key format) = Inr r"
      and ok: "200 \<le> status_code r \<and> status_code r < 300"
      and wr: "open_wb_write fs1 (path_join output_dir (design_id @ ''.'' @ py_lower format))
                 (content r) = Inr fs2"
  shows "fst (download_canva_design service design_id api_key output_dir format w)
           = Inr (Some (path_join output_dir (design_id @ ''.'' @ py_lower format)))
         \<and> read_file (disk (snd (download_canva_design service design_id api_key output_dir format w)))
              (path_join output_dir (design_id @ ''.'' @ py_lower format)) = Some (content r)"
proof -
  have rq: "request_design service (post_call design_id api_key format) = Inr r"
    using resp ok by (intro request_design_accepts) auto
  have wr': "open_wb_write fs1 (output_path design_id output_dir format) (content r) = Inr fs2"
    using wr by (simp add: output_path_def)
  show ?thesis
    using download_writes(1,2)[OF mk rq wr'] read_after_write[OF wr']
    by (simp add: output_path_def)
qed

theorem download_writes_payload_witness:
  "fst (download_canva_design (respond 200 ''%PDF-1.7'') ''ABC123'' ''key'' ''canva_designs'' ''pdf''
          fresh_world) = Inr (Some ''canva_designs/ABC123.pdf'')
   \<and> read_file (disk (snd (download_canva_design (respond 200 ''%PDF-1.7'') ''ABC123'' ''key''
                              ''canva_designs'' ''pdf'' fresh_world)))
        ''canva_designs/ABC123.pdf'' = Some ''%PDF-1.7''"
proof -
  let ?fs1 = "\<lparr>dirs = [[''canva_designs'']], files = [], cwd = []\<rparr>"
  let ?r = "\<lparr>status_code = 200, reason = ''-'',
             response_url = ''https://api.canva.com/v1/designs/ABC123/export'',
             content = ''%PDF-1.7''\<rparr>"
  let ?fs2 = "\<lparr>dirs = [[''canva_designs'']],
               files = [([''canva_designs'', ''ABC123.pdf''], ''%PDF-1.7'')], cwd = []\<rparr>"
  have mk: "makedirs (disk fresh_world) ''canva_designs'' = (None, ?fs1)" by code_simp
  have resp: "respond 200 ''%PDF-1.7'' (post_call ''ABC123'' ''key'' ''pdf'') = Inr ?r" by code_simp
  have ok: "200 \<le> status_code ?r \<and> status_code ?r < 300" by simp
  have pj: "path_join ''canva_designs'' (''ABC123'' @ ''.'' @ py_lower ''pdf'')
              = ''canva_designs/ABC123.pdf''" by code_simp
  have wr: "open_wb_write ?fs1 (path_join ''canva_designs'' (''ABC123'' @ ''.'' @ py_lower ''pdf''))
              (content ?r) = Inr ?fs2" by code_simp
  show ?thesis
    using download_writes_payload[where service = "respond 200 ''%PDF-1.7''", OF mk resp ok wr] unfolding pj by simp
qed


section \<open>The design fetcher: a failed request\<close>

text \<open>
  Claim C5 as stated fails: \<^verbatim>\<open>raise_for_status\<close> raises for the statuses 400 to 599 only.  A
  response with status 304 is not a 2xx response, and the fetcher writes its body to the
  output file and returns the path.
\<close>

theorem download_status_304_writes_file:
  "fst (download_canva_design (respond 304 ''stale'') ''ABC'' ''key'' ''canva_designs'' ''pdf''
          fresh_world) = Inr (Some ''canva_designs/ABC.pdf'')
   \<and> files (disk (snd (download_canva_design (respond 304 ''stale'') ''ABC'' ''key''
                          ''canva_designs'' ''pdf'' fresh_world)))
       = [([''canva_designs'', ''ABC.pdf''], ''stale'')]"
  by code_simp

text \<open>
  Claim C5, amended.  If the export request is made (\<^verbatim>\<open>os.makedirs\<close> has returned) and it
  raises a \<^verbatim>\<open>RequestException\<close> or is answered with a status from 400 to 599, the fetcher
  returns \<^verbatim>\<open>None\<close> and the regular files are those from before the call; the file system
  is the one \<^verbatim>\<open>os.makedirs\<close> left.  In every run, the regular files are either unchanged
  or the output file holds the whole body of the response.
\<close>

theorem download_failed_request_writes_nothing:
  "(makedirs (disk w) output_dir = (None, fs1)
     \<and> ((\<exists>e. service (post_call design_id api_key format) = Inl e)
         \<or> (\<exists>r. service (post_call design_id api_key format) = Inr r
               \<and> 400 \<le> status_code r \<and> status_code r < 600))
    \<longrightarrow> fst (download_canva_design service design_id api_key output_dir format w) = Inr None
        \<and> disk (snd (download_canva_design service design_id api_key output_dir format w)) = fs1
        \<and> files fs1 = files (disk w))
   \<and> (files (disk (snd (download_canva_design service design_id api_key output_dir format w)))
         = files (disk w)
       \<or> (\<exists>r. service (post_call design_id api_key format) = Inr r
             \<and> read_file (disk (snd (download_canva_design service design_id api_key output_dir format w)))
                  (path_join output_dir (design_id @ ''.'' @ py_lower format)) = Some (content r)))"
proof -
  let ?run = "download_canva_design service design_id api_key output_dir format w"
  let ?req = "post_call design_id api_key format"
  have a: "fst ?run = Inr None \<and> disk (snd ?run) = fs1 \<and> files fs1 = files (disk w)"
    if mk: "makedirs (disk w) output_dir = (None, fs1)"
    and fail: "(\<exists>e. service ?req = Inl e)
               \<or> (\<exists>r. service ?req = Inr r \<and> 400 \<le> status_code r \<and> status_code r < 600)"
  proof -
    obtain e where "request_design service ?req = Inl e"
      using request_design_rejects[of service ?req] fail by blast
    from download_request_fails(1,2)[OF mk this] makedirs_frame[OF mk]
    show ?thesis by simp
  qed
  have b: "files (disk (snd ?run)) = files (disk w)
           \<or> (\<exists>r. service ?req = Inr r
                 \<and> read_file (disk (snd ?run)) (path_join output_dir (design_id @ ''.'' @ py_lower format))
                     = Some (content r))"
  proof (cases "makedirs (disk w) output_dir")
    case (Pair e fs1)
    show ?thesis
    proof (cases e)
      case (Some x)
      then show ?thesis
        using download_makedirs_raises[of w output_dir x fs1] Pair makedirs_frame[OF Pair] by simp
    next
      case None
      note mk = Pair[unfolded None]
      show ?thesis
      proof (cases "request_design service ?req")
        case (Inl x)
        then show ?thesis using download_request_fails(2)[OF mk Inl] makedirs_frame[OF mk] by simp
      next
        case (Inr r)
        show ?thesis
        proof (cases "open_wb_write fs1 (output_path design_id output_dir format) (content r)")
          case (Inl x)
          then show ?thesis using download_write_raises(2)[OF mk Inr Inl] makedirs_frame[OF mk] by simp
        next
          case wr: (Inr fs2)
          show ?thesis
            using download_writes(2)[OF mk Inr wr] read_after_write[OF wr] request_design_Inr[OF Inr]
            by (simp add: output_path_def)
        qed
      qed
    qed
  qed
  show ?thesis using a b by blast
qed

theorem download_failed_request_writes_nothing_witness:
  "makedirs (disk fresh_world) ''canva_designs''
     = (None, \<lparr>dirs = [[''canva_designs'']], files = [], cwd = []\<rparr>)
   \<and> respond 404 ''gone'' (post_call ''ABC'' ''key'' ''pdf'')
       = Inr \<lparr>status_code = 404, reason = ''-'',
              response_url = ''https://api.canva.com/v1/designs/ABC/export'', content = ''gone''\<rparr>
   \<and> fst (download_canva_design (respond 404 ''gone'') ''ABC'' ''key'' ''canva_designs'' ''pdf''
            fresh_world) = Inr None
   \<and> disk (snd (download_canva_design (respond 404 ''gone'') ''ABC'' ''key'' ''canva_designs'' ''pdf''
                   fresh_world)) = \<lparr>dirs = [[''canva_designs'']], files = [], cwd = []\<rparr>
   \<and> files (disk fresh_world) = []"
proof -
  let ?fs1 = "\<lparr>dirs = [[''canva_designs'']], files = [], cwd = []\<rparr>"
  let ?r = "\<lparr>status_code = 404, reason = ''-'',
              response_url = ''https://api.canva.com/v1/designs/ABC/export'', content = ''gone''\<rparr>"
  have mk: "makedirs (disk fresh_world) ''canva_designs'' = (None, ?fs1)" by code_simp
  have resp: "respond 404 ''gone'' (post_call ''ABC'' ''key'' ''pdf'') = Inr ?r" by code_simp
  have st: "400 \<le> status_code ?r \<and> status_code ?r < 600" by simp
  have f: "files (disk fresh_world) = []" by (simp add: fresh_world_def)
  have "fst (download_canva_design (respond 404 ''gone'') ''ABC'' ''key'' ''canva_designs'' ''pdf''
            fresh_world) = Inr None
        \<and> disk (snd (download_canva_design (respond 404 ''gone'') ''ABC'' ''key'' ''canva_designs''
                   ''pdf'' fresh_world)) = ?fs1
        \<and> files ?fs1 = files (disk fresh_world)"
    using download_failed_request_writes_nothing[of fresh_world "''canva_designs''" ?fs1 "respond 404 ''gone''" "''ABC''" "''key''" "''pdf''"]
          mk resp st by blast
  then show ?thesis using mk resp f by simp
qed


section \<open>The design fetcher: two runs\<close>



text \<open>The second run can also fail before the request, although the first has written the
  file.  With a regular file \<open>f\<close>, no directory \<open>a\<close>, the output directory \<open>a/../f/.\<close> and the
  identifier \<open>/ABC\<close>, the first \<^verbatim>\<open>os.makedirs\<close> makes \<open>a\<close> and returns, and the file \<open>/ABC.pdf\<close>
  is written; in the second run \<open>a/../f\<close> exists, \<^verbatim>\<open>os.mkdir\<close> of \<open>a/../f/.\<close> raises
  \<^verbatim>\<open>NotADirectoryError\<close>, and the file keeps the first payload.\<close>

lemma download_twice_second_makedirs_raises:
  "fst (download_canva_design (respond 200 ''B1'') ''/ABC'' ''key'' ''a/../f/.'' ''pdf''
          \<lparr>disk = \<lparr>dirs = [], files = [([''f''], ''x'')], cwd = []\<rparr>, logged = [], posted = []\<rparr>)
     = Inr (Some ''/ABC.pdf'')
   \<and> fst (download_canva_design (respond 200 ''B2'') ''/ABC'' ''key'' ''a/../f/.'' ''pdf''
            (snd (download_canva_design (respond 200 ''B1'') ''/ABC'' ''key'' ''a/../f/.'' ''pdf''
               \<lparr>disk = \<lparr>dirs = [], files = [([''f''], ''x'')], cwd = []\<rparr>, logged = [],
                 posted = []\<rparr>)))
       = Inl NotADirectoryError
   \<and> read_file
        (disk (snd (download_canva_design (respond 200 ''B2'') ''/ABC'' ''key'' ''a/../f/.'' ''pdf''
            (snd (download_canva_design (respond 200 ''B1'') ''/ABC'' ''key'' ''a/../f/.'' ''pdf''
               \<lparr>disk = \<lparr>dirs = [], files = [([''f''], ''x'')], cwd = []\<rparr>, logged = [],
                 posted = []\<rparr>)))))
        ''/ABC.pdf'' = Some ''B1''"
  by code_simp



section \<open>The design fetcher: the request\<close>

text \<open>
  Claim C8 as stated fails where \<^verbatim>\<open>os.makedirs\<close> raises: it is called before
  \<^verbatim>\<open>requests.post\<close> and outside the \<^verbatim>\<open>try\<close> block.  With the empty output directory the
  fetcher raises \<^verbatim>\<open>FileNotFoundError\<close> and sends no request.
\<close>

theorem download_empty_output_dir_posts_nothing:
  "fst (download_canva_design (respond 200 ''B'') ''ABC'' ''key'' [] ''pdf'' fresh_world)
     = Inl FileNotFoundError
   \<and> posted (snd (download_canva_design (respond 200 ''B'') ''ABC'' ''key'' [] ''pdf'' fresh_world))
       = []"
  by code_simp

text \<open>
  Claim C8, amended.  In every run in which \<^verbatim>\<open>os.makedirs\<close> returns, the fetcher calls
  \<^verbatim>\<open>requests.post\<close> exactly once: a POST to
  \<open>https://api.canva.com/v1/designs/<identifier>/export\<close> with the JSON body
  \<open>{format: <format in upper case>, pages: all}\<close> and the headers
  \<open>Authorization: Bearer <API key>\<close> and \<open>Content-Type: application/json\<close>.  In a run in
  which \<^verbatim>\<open>os.makedirs\<close> raises it makes no call.
\<close>

theorem download_posts_export_request:
  "posted (snd (download_canva_design service design_id api_key output_dir format w))
     = posted w
       @ (if fst (makedirs (disk w) output_dir) = None
          then [\<lparr> http_method = ''POST'',
                  request_url = ''https://api.canva.com/v1/designs/'' @ design_id @ ''/export'',
                  request_headers = [(''Authorization'', ''Bearer '' @ api_key),
                                     (''Content-Type'', ''application/json'')],
                  request_json = [(''format'', py_upper format), (''pages'', ''all'')] \<rparr>]
          else [])"
  by (simp add: download_posted post_call_def api_url_def headers_def payload_def)

theorem download_posts_export_request_witness:
  "posted (snd (download_canva_design (respond 200 ''B'') ''ABC'' ''key'' ''canva_designs'' ''png''
                  fresh_world))
     = [\<lparr> http_method = ''POST'',
          request_url = ''https://api.canva.com/v1/designs/ABC/export'',
          request_headers = [(''Authorization'', ''Bearer key''),
                             (''Content-Type'', ''application/json'')],
          request_json = [(''format'', ''PNG''), (''pages'', ''all'')] \<rparr>]"
proof -
  have mk: "fst (makedirs (disk fresh_world) ''canva_designs'') = None" by code_simp
  have up: "py_upper ''png'' = ''PNG''" by code_simp
  have p: "posted fresh_world = []" by (simp add: fresh_world_def)
  show ?thesis
    using download_posts_export_request[of "respond 200 ''B''" "''ABC''" "''key''" "''canva_designs''" "''png''" fresh_world]
    by (simp add: mk up p)
qed


section \<open>The design fetcher: the output directory\<close>

text \<open>
  Claim C10 as stated fails for an output directory whose last component is \<open>.\<close>:
  \<^verbatim>\<open>os.makedirs\<close> makes the missing directories of the head, and where that recursive call
  ends in a \<^verbatim>\<open>FileExistsError\<close> it returns without a look at what the name resolves to.
  With a regular file \<open>f\<close> and no directory \<open>a\<close>, \<^verbatim>\<open>os.makedirs('a/../f/.', exist_ok=True)\<close>
  makes \<open>a\<close> and returns; the request is sent, it fails, the run returns \<^verbatim>\<open>None\<close>, and the
  output directory \<open>a/../f/.\<close> is no directory, neither before the request nor after the
  run.
\<close>

theorem download_request_sent_without_directory:
  "makedirs \<lparr>dirs = [], files = [([''f''], ''x'')], cwd = []\<rparr> ''a/../f/.''
     = (None, \<lparr>dirs = [[''a'']], files = [([''f''], ''x'')], cwd = []\<rparr>)
   \<and> \<not> path_isdir \<lparr>dirs = [[''a'']], files = [([''f''], ''x'')], cwd = []\<rparr> ''a/../f/.''
   \<and> download_canva_design refuse ''ABC'' ''key'' ''a/../f/.'' ''pdf''
        \<lparr>disk = \<lparr>dirs = [], files = [([''f''], ''x'')], cwd = []\<rparr>, logged = [], posted = []\<rparr>
       = (Inr None,
          \<lparr>disk = \<lparr>dirs = [[''a'']], files = [([''f''], ''x'')], cwd = []\<rparr>,
            logged = [(INFO, ''Requesting design ABC from Canva API...''),
                      (ERROR, ''API request failed: Connection refused'')],
            posted = [post_call ''ABC'' ''key'' ''pdf'']\<rparr>)"
  by code_simp

text \<open>
  Claim C10, amended.  \<^verbatim>\<open>os.makedirs\<close> is called before the request is sent: in every run in
  which a request is sent, \<^verbatim>\<open>os.makedirs\<close> has returned, and unless the tail of the output
  directory, as \<^verbatim>\<open>os.makedirs\<close> splits it, is \<open>.\<close>, the output directory exists in the file
  system that call left, which is the one the request is sent in, and it exists after the
  run.  In particular, when the request fails, the fetcher returns \<^verbatim>\<open>None\<close>, the file
  system is the one \<^verbatim>\<open>os.makedirs\<close> left, no regular file is written, and under the same
  condition on the tail the directory is there.
\<close>

theorem download_creates_directory_before_request:
  "(posted (snd (download_canva_design service design_id api_key output_dir format w)) \<noteq> posted w
      \<longrightarrow> (\<exists>fs1. makedirs (disk w) output_dir = (None, fs1)
                \<and> (snd (makedirs_split output_dir) \<noteq> ''.''
                     \<longrightarrow> path_isdir fs1 output_dir
                         \<and> path_isdir (disk (snd (download_canva_design service design_id api_key
                                                     output_dir format w))) output_dir)))
   \<and> (makedirs (disk w) output_dir = (None, fs1)
        \<and> request_design service (post_call design_id api_key format) = Inl e
      \<longrightarrow> fst (download_canva_design service design_id api_key output_dir format w) = Inr None
          \<and> disk (snd (download_canva_design service design_id api_key output_dir format w)) = fs1
          \<and> files (disk (snd (download_canva_design service design_id api_key output_dir format w)))
               = files (disk w)
          \<and> (snd (makedirs_split output_dir) \<noteq> ''.''
               \<longrightarrow> path_isdir (disk (snd (download_canva_design service design_id api_key
                                            output_dir format w))) output_dir))"
proof -
  let ?run = "download_canva_design service design_id api_key output_dir format w"
  let ?req = "post_call design_id api_key format"
  have a: "\<exists>fs1. makedirs (disk w) output_dir = (None, fs1)
                 \<and> (snd (makedirs_split output_dir) \<noteq> ''.''
                      \<longrightarrow> path_isdir fs1 output_dir \<and> path_isdir (disk (snd ?run)) output_dir)"
    if sent: "posted (snd ?run) \<noteq> posted w"
  proof -
    obtain fs1 where mk: "makedirs (disk w) output_dir = (None, fs1)"
      using sent download_posted[of service design_id api_key output_dir format w]
      by (cases "makedirs (disk w) output_dir") (auto split: if_splits)
    have "path_isdir fs1 output_dir \<and> path_isdir (disk (snd ?run)) output_dir"
      if tail: "snd (makedirs_split output_dir) \<noteq> ''.''"
    proof -
      have d1: "path_isdir fs1 output_dir" using makedirs_isdir_unless_dot[OF mk tail] .
      have "path_isdir (disk (snd ?run)) output_dir"
      proof (cases "request_design service ?req")
        case (Inl x)
        then show ?thesis using download_request_fails(2)[OF mk Inl] d1 by simp
      next
        case (Inr r)
        show ?thesis
        proof (cases "open_wb_write fs1 (output_path design_id output_dir format) (content r)")
          case (Inl x)
          then show ?thesis using download_write_raises(2)[OF mk Inr Inl] d1 by simp
        next
          case wr: (Inr fs2)
          show ?thesis
            using download_writes(2)[OF mk Inr wr] open_wb_write_frame[OF wr] d1
                  path_isdir_files_irrelevant[of fs2 fs1 output_dir]
            by simp
        qed
      qed
      then show ?thesis using d1 by simp
    qed
    then show ?thesis using mk by blast
  qed
  have b: "fst ?run = Inr None \<and> disk (snd ?run) = fs1 \<and> files (disk (snd ?run)) = files (disk w)
           \<and> (snd (makedirs_split output_dir) \<noteq> ''.'' \<longrightarrow> path_isdir (disk (snd ?run)) output_dir)"
    if mk: "makedirs (disk w) output_dir = (None, fs1)"
    and fail: "request_design service ?req = Inl e"
    using download_request_fails(1,2)[OF mk fail] makedirs_isdir_unless_dot[OF mk] makedirs_frame[OF mk]
    by simp
  show ?thesis using a b by blast
qed

theorem download_creates_directory_before_request_witness:
  "posted (snd (download_canva_design refuse ''ABC'' ''key'' ''canva_designs'' ''pdf'' fresh_world))
     = [post_call ''ABC'' ''key'' ''pdf'']
   \<and> snd (makedirs_split ''canva_designs'') = ''canva_designs''
   \<and> fst (download_canva_design refuse ''ABC'' ''key'' ''canva_designs'' ''pdf'' fresh_world) = Inr None
   \<and> disk (snd (download_canva_design refuse ''ABC'' ''key'' ''canva_designs'' ''pdf'' fresh_world))
       = \<lparr>dirs = [[''canva_designs'']], files = [], cwd = []\<rparr>
   \<and> path_isdir (disk (snd (download_canva_design refuse ''ABC'' ''key'' ''canva_designs'' ''pdf''
                              fresh_world))) ''canva_designs''
   \<and> files (disk (snd (download_canva_design refuse ''ABC'' ''key'' ''canva_designs'' ''pdf''
                          fresh_world))) = []"
proof -
  let ?fs1 = "\<lparr>dirs = [[''canva_designs'']], files = [], cwd = []\<rparr>"
  have mk: "makedirs (disk fresh_world) ''canva_designs'' = (None, ?fs1)" by code_simp
  have rq: "request_design refuse (post_call ''ABC'' ''key'' ''pdf'')
              = Inl (RequestException ''Connection refused'' None)" by code_simp
  have p: "posted (snd (download_canva_design refuse ''ABC'' ''key'' ''canva_designs'' ''pdf''
                          fresh_world)) = [post_call ''ABC'' ''key'' ''pdf'']" by code_simp
  have t: "snd (makedirs_split ''canva_designs'') = ''canva_designs''" by code_simp
  have f: "files (disk fresh_world) = []" "posted fresh_world = []"
    by (simp_all add: fresh_world_def)
  show ?thesis
    using download_creates_directory_before_request[of refuse "''ABC''" "''key''" "''canva_designs''" "''pdf''" fresh_world ?fs1
                "RequestException ''Connection refused'' None"] mk rq p t f
    by simp
qed


section \<open>The entry point: the credential\<close>



text \<open>The entry point treats an empty identifier like an absent one: it logs the failure
  and returns without calling \<^verbatim>\<open>download_canva_design\<close>.\<close>

lemma main_rejects_empty_identifier:
  assumes "api_key_or_environ (args_api_key a) environ_key = Some k" and "k \<noteq> []"
      and "extract_design_id L (args_url a) = Inr (Some [], records)"
  shows "main L service a environ_key w
           = (Inr (), w\<lparr>logged := logged w @ records
                                 @ [(ERROR, ''Failed to extract design ID. Exiting.'')]\<rparr>)"
  using assms by (simp add: main_def Let_def)




end
